theory Spec2Isabelle
  imports Complex_Main
begin

section \<open>JavaScript values used by the components\<close>

text \<open>
  Numbers are modelled as rationals with exact arithmetic; a string is a list of
  characters, each read as one code unit in the range 0..255.  A React ref object is an
  opaque handle: two handles are the same object exactly when they are equal.
\<close>

type_synonym number = rat
type_synonym handle = nat

text \<open>\<^verbatim>\<open>xs[i]\<close> for a number \<open>i\<close> that holds an integer: \<^verbatim>\<open>undefined\<close> out of range.\<close>

definition js_at :: "'a list \<Rightarrow> int \<Rightarrow> 'a option" where
  "js_at xs i = (if 0 \<le> i \<and> i < int (length xs) then Some (xs ! nat i) else None)"

text \<open>\<^verbatim>\<open>xs.indexOf(x)\<close>: the first position holding \<open>x\<close>, or \<open>-1\<close>.\<close>

fun indexOf :: "'a list \<Rightarrow> 'a \<Rightarrow> int" where
  "indexOf [] x = - 1"
| "indexOf (y # ys) x =
     (if y = x then 0 else (let i = indexOf ys x in if i = - 1 then - 1 else i + 1))"

text \<open>\<^verbatim>\<open>s.substr(start, len)\<close> for non-negative arguments.\<close>

definition substr :: "string \<Rightarrow> nat \<Rightarrow> nat \<Rightarrow> string" where
  "substr s start len = take len (drop start s)"

text \<open>
  The decimal rendering of an integer, as a template literal \<^verbatim>\<open>${idx}\<close> produces it
  (for an integer below \<open>10\<^sup>2\<^sup>1\<close>, which every index is; from there on the rendering has
  an exponent).
\<close>

fun digits :: "nat \<Rightarrow> string" where
  "digits n =
     (if n < 10 then [''0123456789'' ! n]
      else digits (n div 10) @ [''0123456789'' ! (n mod 10)])"

definition num_str :: "int \<Rightarrow> string" where
  "num_str i = (if i < 0 then CHR ''-'' # digits (nat (- i)) else digits (nat i))"

text \<open>
  A product of two numbers is the exact product rounded to the nearest double
  (IEEE 754 binary64: 53 significant bits, the smallest exponent -1022, ties to the
  even significand).  The rounding is modelled for a non-negative rational below the
  overflow threshold: \<open>floor_log2 x\<close> is the exponent \<open>e\<close> with \<open>2\<^sup>e \<le> x < 2\<^sup>e\<^sup>+\<^sup>1\<close>,
  \<open>ulp x\<close> the distance of neighbouring doubles there, and \<open>round_double x\<close> the
  multiple of \<open>ulp x\<close> nearest to \<open>x\<close>.  A double is a number the rounding leaves as
  it is.
\<close>

fun bit_length :: "nat \<Rightarrow> nat" where
  "bit_length n = (if n = 0 then 0 else Suc (bit_length (n div 2)))"

declare bit_length.simps [simp del]

definition floor_log2 :: "rat \<Rightarrow> int" where
  "floor_log2 x =
     (if 1 \<le> x then int (bit_length (nat \<lfloor>x\<rfloor>)) - 1
      else - int (bit_length (nat (\<lceil>1 / x\<rceil> - 1))))"

definition round_even :: "rat \<Rightarrow> int" where
  "round_even y =
     (let f = \<lfloor>y\<rfloor>; d = y - of_int f
      in if 1 / 2 < d \<or> (d = 1 / 2 \<and> odd f) then f + 1 else f)"

definition ulp :: "rat \<Rightarrow> rat" where
  "ulp x = 2 powi (max (floor_log2 x) (- 1022) - 52)"

definition round_double :: "rat \<Rightarrow> rat" where
  "round_double x = (if x = 0 then 0 else of_int (round_even (x / ulp x)) * ulp x)"

definition is_double :: "rat \<Rightarrow> bool" where
  "is_double x = (0 \<le> x \<and> x < 2 ^ 1024 \<and> round_double x = x)"

text \<open>
  White space as \<^verbatim>\<open>trim()\<close> and the regular expression \<^verbatim>\<open>\s\<close> see it, within the
  modelled range of code units: TAB, LF, VT, FF, CR, SPACE and NBSP.
\<close>

definition is_ws :: "char \<Rightarrow> bool" where
  "is_ws c = (c \<in> set [CHR 0x09, CHR 0x0A, CHR 0x0B, CHR 0x0C, CHR 0x0D, CHR 0x20, CHR 0xA0])"

definition trim :: "string \<Rightarrow> string" where
  "trim s = rev (dropWhile is_ws (rev (dropWhile is_ws s)))"

text \<open>
  \<^verbatim>\<open>s.split(/\s+/)\<close>: every maximal run of white space separates two pieces, so a
  string that starts or ends with white space has an empty first or last piece.
\<close>

function split_ws :: "string \<Rightarrow> string list" where
  "split_ws [] = [[]]"
| "split_ws (c # cs) =
     (if is_ws c then [] # split_ws (dropWhile is_ws cs)
      else (case split_ws cs of [] \<Rightarrow> [[c]] | t # ts \<Rightarrow> (c # t) # ts))"
  by pat_completeness auto
termination
  by (relation "measure length") (auto simp: le_imp_less_Suc length_dropWhile_le)

text \<open>\<^verbatim>\<open>toLowerCase()\<close>: A-Z and the upper-case letters of the Latin-1 range.\<close>

definition toLowerChar :: "char \<Rightarrow> char" where
  "toLowerChar c =
     (let n = (of_char c :: nat)
      in if (65 \<le> n \<and> n \<le> 90) \<or> (192 \<le> n \<and> n \<le> 222 \<and> n \<noteq> 215)
         then char_of (n + 32) else c)"

definition toLowerCase :: "string \<Rightarrow> string" where
  "toLowerCase s = map toLowerChar s"

text \<open>
  A property read \<^verbatim>\<open>TABLE[key]\<close> on a plain object literal, for a key that went through
  \<^verbatim>\<open>toLowerCase()\<close>: the table's own entry, or a member inherited from
  \<^verbatim>\<open>Object.prototype\<close>, or \<^verbatim>\<open>undefined\<close>.  Of the members of \<^verbatim>\<open>Object.prototype\<close>
  only \<^verbatim>\<open>constructor\<close> and \<^verbatim>\<open>__proto__\<close> have a name without an upper-case letter, so
  a lower-cased key reaches no other.
\<close>

datatype 'a js_lookup = Own 'a | Proto string | Undefined

definition object_prototype_keys :: "string list" where
  "object_prototype_keys = [''constructor'', ''__proto__'']"

definition js_get :: "(string \<times> 'a) list \<Rightarrow> string \<Rightarrow> 'a js_lookup" where
  "js_get tbl k =
     (case map_of tbl k of
        Some v \<Rightarrow> Own v
      | None \<Rightarrow> if k \<in> set object_prototype_keys then Proto k else Undefined)"


section \<open>SignalContext.tsx: the shared types\<close>

record SignalType =
  sig_id :: string
  startX :: number
  startY :: number
  color :: string

record TargetRegistry =
  skills :: "handle list"
  trace :: "handle list"

datatype category = Skills | Trace

text \<open>\<^verbatim>\<open>targets.current[type]\<close> and its in-place replacement.\<close>

fun bucket :: "category \<Rightarrow> TargetRegistry \<Rightarrow> handle list" where
  "bucket Skills reg = skills reg"
| "bucket Trace reg = trace reg"

fun set_bucket :: "category \<Rightarrow> handle list \<Rightarrow> TargetRegistry \<Rightarrow> TargetRegistry" where
  "set_bucket Skills hs reg = reg\<lparr>skills := hs\<rparr>"
| "set_bucket Trace hs reg = reg\<lparr>trace := hs\<rparr>"

record DOMRect =
  rect_left :: number
  rect_top :: number
  rect_width :: number
  rect_height :: number


section \<open>index.tsx: the dispatcher of AppContent\<close>

definition registerTarget :: "category \<Rightarrow> handle \<Rightarrow> TargetRegistry \<Rightarrow> TargetRegistry" where
  "registerTarget type ref reg =
     (if ref \<notin> set (bucket type reg) then set_bucket type (bucket type reg @ [ref]) reg
      else reg)"

text \<open>
  The component's state, together with the pending \<^verbatim>\<open>setTimeout\<close> callbacks of the
  event loop.  \<open>clock\<close> counts milliseconds; a pending timer is its due time and its
  callback, and \<open>timers\<close> keeps them in the order of their creation.
\<close>

datatype timer_callback = RemoveSignal string | RemoveHit string

record AppState =
  clock :: nat
  signals :: "SignalType list"
  activeHits :: "string set"
  targets :: TargetRegistry
  timers :: "(nat \<times> timer_callback) list"

definition initial_state :: AppState where
  "initial_state =
     \<lparr>clock = 0, signals = [], activeHits = {},
      targets = \<lparr>skills = [], trace = []\<rparr>, timers = []\<rparr>"

text \<open>
  \<open>emitSignal\<close> takes, besides the rectangle and the colour, the string
  \<^verbatim>\<open>Math.random().toString(36)\<close> of its one random draw (\<^verbatim>\<open>"0.i"\<close> when the draw is
  0.5): the identifier is cut out of that string and depends on nothing else.
\<close>

definition emitSignal :: "DOMRect \<Rightarrow> string \<Rightarrow> string \<Rightarrow> AppState \<Rightarrow> AppState" where
  "emitSignal rect col rnd36 s =
     (let ident = substr rnd36 2 9;
          sx = rect_left rect + rect_width rect / 2;
          sy = rect_top rect + rect_height rect / 2
      in s\<lparr>signals := signals s @ [\<lparr>sig_id = ident, startX = sx, startY = sy, color = col\<rparr>],
            timers := timers s @ [(clock s + 2500, RemoveSignal ident)]\<rparr>)"

definition hitTarget :: "string \<Rightarrow> AppState \<Rightarrow> AppState" where
  "hitTarget ident s =
     s\<lparr>activeHits := insert ident (activeHits s),
        timers := timers s @ [(clock s + 500, RemoveHit ident)]\<rparr>"

text \<open>The two timer callbacks: the state updates they pass to the setters.\<close>

fun run_callback :: "timer_callback \<Rightarrow> AppState \<Rightarrow> AppState" where
  "run_callback (RemoveSignal ident) s =
     s\<lparr>signals := filter (\<lambda>x. sig_id x \<noteq> ident) (signals s)\<rparr>"
| "run_callback (RemoveHit ident) s = s\<lparr>activeHits := activeHits s - {ident}\<rparr>"

text \<open>
  Time passes: every timer that is due by the new time runs, in the order of the due
  times and, among equal due times, in the order of creation; the other timers stay.
\<close>

definition elapse :: "nat \<Rightarrow> AppState \<Rightarrow> AppState" where
  "elapse d s =
     (let t = clock s + d;
          due = filter (\<lambda>tm. fst tm \<le> t) (timers s);
          later = filter (\<lambda>tm. \<not> fst tm \<le> t) (timers s)
      in foldl (\<lambda>st tm. run_callback (snd tm) st)
           (s\<lparr>clock := t, timers := later\<rparr>) (sort_key fst due))"

text \<open>What can happen to the component, and a run of such events.\<close>

datatype event =
    RegisterTarget category handle
  | EmitSignal DOMRect string string
  | HitTarget string
  | Elapse nat

fun step :: "AppState \<Rightarrow> event \<Rightarrow> AppState" where
  "step s (RegisterTarget type ref) = s\<lparr>targets := registerTarget type ref (targets s)\<rparr>"
| "step s (EmitSignal rect col rnd36) = emitSignal rect col rnd36 s"
| "step s (HitTarget ident) = hitTarget ident s"
| "step s (Elapse d) = elapse d s"

definition run :: "event list \<Rightarrow> AppState \<Rightarrow> AppState" where
  "run es s = foldl step s es"

text \<open>Every pending timer is due strictly later than now.\<close>

definition timers_ahead :: "AppState \<Rightarrow> bool" where
  "timers_ahead s = list_all (\<lambda>tm. clock s < fst tm) (timers s)"


section \<open>SignalPacket.tsx: the renderer of one signal\<close>

text \<open>
  The page as the renderer reads it: the scroll offsets of the window and, for every
  handle, the bounding rectangle of the element in \<^verbatim>\<open>ref.current\<close>, or \<open>None\<close> when
  \<^verbatim>\<open>ref.current\<close> is \<^verbatim>\<open>null\<close>.
\<close>

record Page =
  scrollX :: number
  scrollY :: number
  current :: "handle \<Rightarrow> DOMRect option"

record Pos =
  pos_x :: number
  pos_y :: number

text \<open>The values the two \<^verbatim>\<open>useMemo\<close> hooks of an instance hold.\<close>

record PacketHooks =
  skillTarget :: "handle option"
  traceTarget :: "handle option"

text \<open>
  \<^verbatim>\<open>useMemo(factory, [])\<close>: the first render (no stored value) runs the factory,
  every later render returns the stored value.
\<close>

definition useMemo :: "'a option \<Rightarrow> 'a \<Rightarrow> 'a" where
  "useMemo stored factory = (case stored of None \<Rightarrow> factory | Some v \<Rightarrow> v)"

text \<open>
  \<^verbatim>\<open>hs[Math.floor(Math.random() * hs.length)]\<close>, for the draw \<open>r\<close> of
  \<^verbatim>\<open>Math.random()\<close>, a double with \<open>0 \<le> r < 1\<close>: the product is the double nearest
  to the exact product, and \<^verbatim>\<open>Math.floor\<close> of a double is exact.
\<close>

definition pick_target :: "number \<Rightarrow> handle list \<Rightarrow> handle option" where
  "pick_target r hs = js_at hs \<lfloor>round_double (r * of_nat (length hs))\<rfloor>"

definition getPos :: "Page \<Rightarrow> handle option \<Rightarrow> Pos" where
  "getPos pg ref =
     (case ref of
        None \<Rightarrow> \<lparr>pos_x = 0, pos_y = 0\<rparr>
      | Some h \<Rightarrow>
          (case current pg h of
             None \<Rightarrow> \<lparr>pos_x = 0, pos_y = 0\<rparr>
           | Some rect \<Rightarrow>
               \<lparr>pos_x = rect_left rect + rect_width rect / 2 + scrollX pg,
                pos_y = rect_top rect + rect_height rect / 2 + scrollY pg\<rparr>))"

definition start_pos :: "Page \<Rightarrow> SignalType \<Rightarrow> Pos" where
  "start_pos pg signal =
     \<lparr>pos_x = startX signal + scrollX pg, pos_y = startY signal + scrollY pg\<rparr>"

definition safeMid :: "Page \<Rightarrow> SignalType \<Rightarrow> PacketHooks \<Rightarrow> Pos" where
  "safeMid pg signal hooks =
     (let start = start_pos pg signal; mid = getPos pg (skillTarget hooks)
      in if pos_y mid = 0 then \<lparr>pos_x = pos_x start, pos_y = pos_y start + 800\<rparr> else mid)"

definition safeEnd :: "Page \<Rightarrow> SignalType \<Rightarrow> PacketHooks \<Rightarrow> Pos" where
  "safeEnd pg signal hooks =
     (let sm = safeMid pg signal hooks; en = getPos pg (traceTarget hooks)
      in if pos_y en = 0 then \<lparr>pos_x = pos_x sm, pos_y = pos_y sm + 800\<rparr> else en)"

text \<open>The props handed to the animated element: keyframes and transition.\<close>

record Motion =
  keys_left :: "number list"
  keys_top :: "number list"
  keys_opacity :: "number list"
  keys_scale :: "number list"
  duration :: number
  key_times :: "number list"

text \<open>
  One render of an instance.  \<open>stored\<close> is what the hooks hold from the first render
  (\<open>None\<close> on the first render itself); \<open>r1\<close> and \<open>r2\<close> are the draws the two
  factories would take.  The result is the hooks' values and the element's props.
\<close>

definition SignalPacket ::
  "PacketHooks option \<Rightarrow> number \<Rightarrow> number \<Rightarrow> SignalType \<Rightarrow> TargetRegistry \<Rightarrow> Page
     \<Rightarrow> PacketHooks \<times> Motion" where
  "SignalPacket stored r1 r2 signal tg pg =
     (let hooks =
            \<lparr>skillTarget = useMemo (map_option skillTarget stored) (pick_target r1 (skills tg)),
             traceTarget = useMemo (map_option traceTarget stored) (pick_target r2 (trace tg))\<rparr>;
          start = start_pos pg signal;
          sm = safeMid pg signal hooks;
          se = safeEnd pg signal hooks
      in (hooks,
          \<lparr>keys_left = [pos_x start, pos_x sm, pos_x se],
           keys_top = [pos_y start, pos_y sm, pos_y se],
           keys_opacity = [1, 1, 0],
           keys_scale = [1, 1, 0],
           duration = 5 / 2,
           key_times = [0, 2 / 5, 1]\<rparr>))"

text \<open>
  The callbacks of the two timers (1000 ms and 2000 ms after the mount): the argument
  each passes to \<open>onHit\<close>, or \<open>None\<close> when it does not call \<open>onHit\<close>.  They read the
  registry as it is when they fire.
\<close>

definition t1 :: "PacketHooks \<Rightarrow> TargetRegistry \<Rightarrow> string option" where
  "t1 hooks tg =
     (case skillTarget hooks of
        None \<Rightarrow> None
      | Some h \<Rightarrow>
          (let idx = indexOf (skills tg) h
           in if idx \<noteq> - 1 then Some (''skill-'' @ num_str idx) else None))"

definition t2 :: "PacketHooks \<Rightarrow> TargetRegistry \<Rightarrow> string option" where
  "t2 hooks tg =
     (case traceTarget hooks of
        None \<Rightarrow> None
      | Some h \<Rightarrow>
          (let idx = indexOf (trace tg) h
           in if idx \<noteq> - 1 then Some (''trace-'' @ num_str idx) else None))"


section \<open>SkillNode.tsx and TimelineItem.tsx: the display components\<close>

text \<open>The identifier each component tests, from its \<open>index\<close> prop.\<close>

definition SkillNode_id :: "nat \<Rightarrow> string" where
  "SkillNode_id index = ''skill-'' @ num_str (int index)"

definition TimelineItem_id :: "nat \<Rightarrow> string" where
  "TimelineItem_id index = ''trace-'' @ num_str (int index)"

definition SkillNode_isHit :: "string set \<Rightarrow> nat \<Rightarrow> bool" where
  "SkillNode_isHit hits index = (SkillNode_id index \<in> hits)"

definition TimelineItem_isHit :: "string set \<Rightarrow> nat \<Rightarrow> bool" where
  "TimelineItem_isHit hits index = (TimelineItem_id index \<in> hits)"

text \<open>
  The form of a hit identifier as the specification words it: the name of the
  category, a hyphen, and the position of the handle in the category's collection.
\<close>

fun category_name :: "category \<Rightarrow> string" where
  "category_name Skills = ''skills''"
| "category_name Trace = ''trace''"

definition spec_hit_id :: "category \<Rightarrow> nat \<Rightarrow> string" where
  "spec_hit_id cat i = category_name cat @ ''-'' @ num_str (int i)"


section \<open>index.tsx: the mounted display components\<close>

text \<open>
  A mounted skill node or timeline item: the ref object its \<^verbatim>\<open>useRef(null)\<close> created
  and its \<open>index\<close> prop.
\<close>

record Component =
  comp_ref :: handle
  comp_index :: nat

datatype view_mode = Log | Wave

text \<open>
  The content of the page as far as the registry sees it: the registry, the identity
  the next ref object gets, the mounted skill nodes and timeline items in the order of
  the tree, and \<open>viewMode\<close>.
\<close>

record Content =
  registry :: TargetRegistry
  next_ref :: handle
  skill_nodes :: "Component list"
  timeline_items :: "Component list"
  viewMode :: view_mode

text \<open>
  A component mounts: its first render creates a new ref object, and its effect
  \<^verbatim>\<open>useEffect(() => { registerTarget(category, ref); }, [])\<close> registers that object.
\<close>

definition SkillNode_mount :: "Content \<Rightarrow> nat \<Rightarrow> Content" where
  "SkillNode_mount ct index =
     (let ref = next_ref ct
      in ct\<lparr>registry := registerTarget Skills ref (registry ct),
            next_ref := ref + 1,
            skill_nodes := skill_nodes ct @ [\<lparr>comp_ref = ref, comp_index = index\<rparr>]\<rparr>)"

definition TimelineItem_mount :: "Content \<Rightarrow> nat \<Rightarrow> Content" where
  "TimelineItem_mount ct index =
     (let ref = next_ref ct
      in ct\<lparr>registry := registerTarget Trace ref (registry ct),
            next_ref := ref + 1,
            timeline_items := timeline_items ct @ [\<lparr>comp_ref = ref, comp_index = index\<rparr>]\<rparr>)"

text \<open>traceData.ts: the \<open>id\<close> fields of the four records of \<open>TRACE_DATA\<close>.\<close>

definition TRACE_DATA :: "nat list" where
  "TRACE_DATA = [0, 1, 2, 3]"

text \<open>\<^verbatim>\<open>TRACE_DATA.map((item, i) => <TimelineItem key={item.id} index={i} ... />)\<close>.\<close>

definition mount_timeline :: "Content \<Rightarrow> Content" where
  "mount_timeline ct = foldl TimelineItem_mount ct [0..<length TRACE_DATA]"

text \<open>
  The content mounts once the boot sequence is complete: the six skill nodes with the
  indices 0 to 5, then the timeline of the log view.
\<close>

definition boot :: Content where
  "boot =
     mount_timeline
       (foldl SkillNode_mount
          \<lparr>registry = \<lparr>skills = [], trace = []\<rparr>, next_ref = 0, skill_nodes = [],
             timeline_items = [], viewMode = Log\<rparr>
          [0, 1, 2, 3, 4, 5])"

text \<open>
  The view button, \<^verbatim>\<open>setViewMode(prev => prev === 'log' ? 'wave' : 'log')\<close>: leaving the
  log view unmounts the timeline items, and the registry keeps their handles; coming
  back mounts new timeline items.
\<close>

definition toggle_view :: "Content \<Rightarrow> Content" where
  "toggle_view ct =
     (case viewMode ct of
        Log \<Rightarrow> ct\<lparr>viewMode := Wave, timeline_items := []\<rparr>
      | Wave \<Rightarrow> mount_timeline (ct\<lparr>viewMode := Log\<rparr>))"


section \<open>Terminal.tsx: the terminal emulator\<close>

datatype theme = Default | Silicon | Light

text \<open>What a handler does outside its own component: the callbacks and the page.\<close>

datatype effect =
    OnClose
  | OnThemeChange theme
  | Download string
  | ScrollToTop
  | ScrollToBottom
  | ScrollIntoView string

datatype line_type = Input | Output

text \<open>
  The content of a history line: a string, or the member of \<^verbatim>\<open>Object.prototype\<close> of
  the given name when the table read found no entry of its own.
\<close>

datatype content = Text string | Inherited string

record Terminal =
  history :: "(line_type \<times> content) list"
  input :: string

definition Terminal_initial :: Terminal where
  \<open>Terminal_initial =
     \<lparr>history = [(Output, Text ''MishatOS v2.0.0 [Senior Build]''),
                 (Output, Text ''Type "help" for instructions.'')],
      input = []\<rparr>\<close>

definition COMMANDS :: "(string \<times> string) list" where
  "COMMANDS =
     [(''help'', ''Available commands: help, whoami, skills, contact, clear, run_test, resume, theme [silicon|light|dark]''),
      (''whoami'', ''Mishat | Senior Design Verification Engineer @ Marvell Technology. Obsessed with zero bugs.''),
      (''skills'', ''SystemVerilog, UVM, Python, Formal Verification, Verdi, DVE, C++''),
      (''contact'', ''Email: mishath@mun.ca | LinkedIn: in/mishathassan''),
      (''run_test'', ''Starting UVM Sequence...'' @ [CHR 0x0A] @ ''Running test_soc_boot...''
         @ [CHR 0x0A] @ ''Wait for interrupt...'' @ [CHR 0x0A] @ ''TEST PASSED (Coverage: 100%)'')]"

text \<open>The two lines every branch but \<open>clear\<close> appends: the input as typed, and the answer.\<close>

definition answer :: "Terminal \<Rightarrow> content \<Rightarrow> Terminal" where
  "answer tm out =
     \<lparr>history = history tm @ [(Input, Text (input tm)), (Output, out)], input = []\<rparr>"

text \<open>\<^verbatim>\<open>if (onThemeChange) onThemeChange(t)\<close>: the prop is optional.\<close>

definition theme_call :: "bool \<Rightarrow> theme \<Rightarrow> effect list" where
  "theme_call has_onThemeChange t = (if has_onThemeChange then [OnThemeChange t] else [])"

definition handleCommand :: "bool \<Rightarrow> Terminal \<Rightarrow> Terminal \<times> effect list" where
  "handleCommand has_onThemeChange tm =
     (if trim (input tm) = [] then (tm, [])
      else
        let rawCmd = trim (input tm);
            args = split_ws rawCmd;
            cmd = toLowerCase (hd args);
            arg1 = map_option toLowerCase (js_at args 1)
        in if cmd = ''clear'' then (\<lparr>history = [], input = []\<rparr>, [])
           else if cmd = ''theme'' then
             (if arg1 = Some ''silicon'' then
                (answer tm (Text ''SWITCHING TO RTL VIEW... GATE LEVEL PRIMITIVES EXPOSED.''),
                 theme_call has_onThemeChange Silicon)
              else if arg1 = Some ''dark'' then
                (answer tm (Text ''REVERTING TO ABSTRACTION LAYER 0.''),
                 theme_call has_onThemeChange Default)
              else if arg1 = Some ''light'' then
                (answer tm (Text ''ACTIVATING CLEAN ROOM PROTOCOLS... ILLUMINATION: 100%''),
                 theme_call has_onThemeChange Light)
              else (answer tm (Text ''Usage: theme [silicon | light | dark]''), []))
           else if cmd = ''resume'' then
             (answer tm (Text ''Initiating download sequence for Mishat_Hassan_Resume.txt...''),
              [Download ''Mishat_Hassan_Resume.txt''])
           else
             (answer tm
                (case js_get COMMANDS cmd of
                   Own txt \<Rightarrow> Text txt
                 | Proto k \<Rightarrow> Inherited k
                 | Undefined \<Rightarrow> Text (''bash: '' @ cmd @ '': command not found'')),
              []))"


section \<open>VimCommandPalette.tsx: the command palette\<close>

text \<open>
  A handler gets the arguments and answers with the calls it makes and, when it calls
  \<open>setOutput\<close>, the message.
\<close>

type_synonym CommandHandler = "string list \<Rightarrow> effect list \<times> string option"

definition theme_handler :: CommandHandler where
  "theme_handler args =
     (let t = map_option toLowerCase (js_at args 0)
      in if t = Some ''silicon'' then ([OnThemeChange Silicon], Some ''SWITCHING TO RTL VIEW...'')
         else if t = Some ''light'' then ([OnThemeChange Light], Some ''CLEAN ROOM MODE ACTIVATED'')
         else if t = Some ''dark'' \<or> t = Some ''default'' then
           ([OnThemeChange Default], Some ''ABSTRACTION LAYER 0'')
         else ([], Some ''Usage: theme [dark|light|silicon]''))"

definition PALETTE_COMMANDS :: "(string \<times> CommandHandler) list" where
  "PALETTE_COMMANDS =
     [(''help'', \<lambda>_. ([], Some ''Commands: help, q, wq, theme [dark|light|silicon], colorscheme, top, $, contact, skills, resume'')),
      (''q'', \<lambda>_. ([OnClose], None)),
      (''quit'', \<lambda>_. ([OnClose], None)),
      (''wq'', \<lambda>_. ([OnClose], None)),
      (''x'', \<lambda>_. ([OnClose], None)),
      (''theme'', theme_handler),
      (''colorscheme'', theme_handler),
      (''colo'', theme_handler),
      (''top'', \<lambda>_. ([ScrollToTop, OnClose], None)),
      (''0'', \<lambda>_. ([ScrollToTop, OnClose], None)),
      (''$'', \<lambda>_. ([ScrollToBottom, OnClose], None)),
      (''bottom'', \<lambda>_. ([ScrollToBottom, OnClose], None)),
      (''contact'', \<lambda>_. ([ScrollIntoView ''terminal'', OnClose], None)),
      (''skills'', \<lambda>_. ([ScrollIntoView ''coverage'', OnClose], None)),
      (''resume'', \<lambda>_. ([Download ''Mishat_Hassan_Resume.pdf''], Some ''Downloading resume...'')),
      (''verification'', \<lambda>_. ([ScrollIntoView ''verification'', OnClose], None)),
      (''trace'', \<lambda>_. ([ScrollIntoView ''trace'', OnClose], None))]"

record Palette =
  p_input :: string
  p_output :: "string option"

datatype js_error = TypeError

text \<open>
  An inherited \<open>constructor\<close> is the function \<^verbatim>\<open>Object\<close>, which returns its argument
  and does nothing else; an inherited \<open>__proto__\<close> is an object and no function, and
  the call throws before the input is cleared.
\<close>

definition handleSubmit :: "Palette \<Rightarrow> js_error + Palette \<times> effect list" where
  "handleSubmit pal =
     (let trimmed = trim (p_input pal)
      in if trimmed = [] then Inr (pal, [OnClose])
         else
           let parts = split_ws trimmed;
               cmd = toLowerCase (hd parts);
               args = tl parts
           in case js_get PALETTE_COMMANDS cmd of
                Own handler \<Rightarrow>
                  (let (effs, msg) = handler args
                   in Inr (\<lparr>p_input = [],
                            p_output = (case msg of None \<Rightarrow> p_output pal | Some m \<Rightarrow> Some m)\<rparr>,
                           effs))
              | Proto k \<Rightarrow>
                  (if k = ''constructor'' then Inr (pal\<lparr>p_input := []\<rparr>, []) else Inl TypeError)
              | Undefined \<Rightarrow>
                  Inr (\<lparr>p_input = [], p_output = Some (''E492: Not a command: '' @ cmd)\<rparr>, []))"


section \<open>Runs of the operations\<close>

text \<open>A sequence of registrations in one category, as mounting components make them.\<close>

definition register_all :: "category \<Rightarrow> handle list \<Rightarrow> TargetRegistry \<Rightarrow> TargetRegistry" where
  "register_all type refs reg = foldl (\<lambda>r ref. registerTarget type ref r) reg refs"

text \<open>A removal timer of an earlier \<open>hitTarget\<close> call with this identifier is still pending.\<close>

definition hit_pending :: "string \<Rightarrow> AppState \<Rightarrow> bool" where
  "hit_pending ident s = (RemoveHit ident \<in> snd ` set (timers s))"

text \<open>
  Two invariants of a run after a \<open>hitTarget\<close> call at time \<open>t - 500\<close>: an identifier in
  the hit state has a removal timer due by \<open>t\<close>; and, when no other removal timer of the
  identifier exists, the identifier stays in the hit state before \<open>t\<close>.
\<close>

definition removal_due :: "string \<Rightarrow> nat \<Rightarrow> AppState \<Rightarrow> bool" where
  "removal_due ident t s =
     (ident \<in> activeHits s \<longrightarrow> (\<exists>w\<le>t. (w, RemoveHit ident) \<in> set (timers s)))"

definition sole_removal :: "string \<Rightarrow> nat \<Rightarrow> AppState \<Rightarrow> bool" where
  "sole_removal ident t s =
     (list_all (\<lambda>tm. snd tm = RemoveHit ident \<longrightarrow> fst tm = t) (timers s)
      \<and> (clock s < t \<longrightarrow> ident \<in> activeHits s))"

text \<open>The event is an \<open>emitSignal\<close> call whose draw gives this identifier.\<close>

fun emits :: "string \<Rightarrow> event \<Rightarrow> bool" where
  "emits ident (EmitSignal rect col rnd36) = (substr rnd36 2 9 = ident)"
| "emits ident e = False"

text \<open>The same two invariants for a signal and its removal timer.\<close>

definition signal_due :: "string \<Rightarrow> nat \<Rightarrow> AppState \<Rightarrow> bool" where
  "signal_due ident t s =
     (ident \<in> sig_id ` set (signals s) \<longrightarrow> (\<exists>w\<le>t. (w, RemoveSignal ident) \<in> set (timers s)))"

definition sole_signal :: "SignalType \<Rightarrow> nat \<Rightarrow> AppState \<Rightarrow> bool" where
  "sole_signal sg t s =
     (list_all (\<lambda>tm. snd tm = RemoveSignal (sig_id sg) \<longrightarrow> fst tm = t) (timers s)
      \<and> (clock s < t \<longrightarrow> sg \<in> set (signals s)))"

text \<open>
  The lower-cased pieces of the trimmed input, and the answers a terminal shows (its
  history without the echoed input lines).
\<close>

definition tokens :: "string \<Rightarrow> string list" where
  "tokens s = map toLowerCase (split_ws (trim s))"

definition output_lines :: "Terminal \<Rightarrow> content list" where
  "output_lines tm = map snd (filter (\<lambda>l. fst l = Output) (history tm))"


section \<open>The target registry\<close>

lemma bucket_set_bucket: "bucket c (set_bucket c hs reg) = hs"
  by (cases c) simp_all

lemma bucket_registerTarget:
  "bucket c (registerTarget c h reg) =
     (if h \<in> set (bucket c reg) then bucket c reg else bucket c reg @ [h])"
  by (simp add: registerTarget_def bucket_set_bucket)

lemma registerTarget_twice:
  "registerTarget c h (registerTarget c h reg) = registerTarget c h reg"
  by (simp add: registerTarget_def bucket_set_bucket)

lemma registerTarget_present: "h \<in> set (bucket c reg) \<Longrightarrow> registerTarget c h reg = reg"
  by (simp add: registerTarget_def)

lemma bucket_register_all:
  "bucket c (register_all c hs \<lparr>skills = [], trace = []\<rparr>) = rev (remdups (rev hs))"
proof (induction hs rule: rev_induct)
  case Nil
  show ?case by (cases c) (simp_all add: register_all_def)
next
  case (snoc h hs)
  have "register_all c (hs @ [h]) \<lparr>skills = [], trace = []\<rparr> =
          registerTarget c h (register_all c hs \<lparr>skills = [], trace = []\<rparr>)"
    by (simp add: register_all_def)
  then show ?case using snoc by (simp add: bucket_registerTarget)
qed

text \<open>
  C2.  Registering a handle a second time in the same category changes nothing: the
  registry after two calls is the registry after one, so the collection keeps its
  length.  A call with a handle that is already present returns the registry as it
  was, any other call appends the handle at the end.  Hence a sequence of registrations
  into the empty registry leaves the handles in the order of their first registration
  (\<open>rev (remdups (rev hs))\<close> keeps the first occurrence of every handle of \<open>hs\<close>).
\<close>

theorem registerTarget_idempotent:
  "registerTarget c h (registerTarget c h reg) = registerTarget c h reg
   \<and> length (bucket c (registerTarget c h (registerTarget c h reg)))
       = length (bucket c (registerTarget c h reg))
   \<and> bucket c (registerTarget c h reg)
       = (if h \<in> set (bucket c reg) then bucket c reg else bucket c reg @ [h])
   \<and> (if h \<in> set (bucket c reg) then registerTarget c h reg = reg else True)
   \<and> bucket c (register_all c hs \<lparr>skills = [], trace = []\<rparr>) = rev (remdups (rev hs))"
  by (simp add: registerTarget_twice bucket_registerTarget bucket_register_all registerTarget_present)

theorem registerTarget_idempotent_witness:
  "registerTarget Skills 7 (registerTarget Skills 7 \<lparr>skills = [3], trace = [7]\<rparr>)
     = \<lparr>skills = [3, 7], trace = [7]\<rparr>
   \<and> registerTarget Trace 7 \<lparr>skills = [3], trace = [7]\<rparr> = \<lparr>skills = [3], trace = [7]\<rparr>
   \<and> bucket Skills (register_all Skills [4, 2, 4, 9, 2] \<lparr>skills = [], trace = []\<rparr>) = [4, 2, 9]"
  using registerTarget_idempotent [of Skills 7 "\<lparr>skills = [3], trace = [7]\<rparr>" "[4, 2, 4, 9, 2]"]
        registerTarget_idempotent [of Trace 7 "\<lparr>skills = [3], trace = [7]\<rparr>" "[]"]
  by (simp add: registerTarget_def)

text \<open>No run of events puts a handle twice into a category.\<close>

lemma registerTarget_distinct:
  "distinct (skills reg) \<and> distinct (trace reg) \<Longrightarrow>
   distinct (skills (registerTarget c h reg)) \<and> distinct (trace (registerTarget c h reg))"
  by (cases c) (simp_all add: registerTarget_def)



section \<open>The event loop\<close>

lemma fold_callbacks_frame:
  "clock (foldl (\<lambda>st tm. run_callback (snd tm) st) s tms) = clock s
   \<and> timers (foldl (\<lambda>st tm. run_callback (snd tm) st) s tms) = timers s
   \<and> targets (foldl (\<lambda>st tm. run_callback (snd tm) st) s tms) = targets s"
proof (induction tms arbitrary: s)
  case Nil
  show ?case by simp
next
  case (Cons tm tms)
  show ?case using Cons [of "run_callback (snd tm) s"]
    by (cases "snd tm") simp_all
qed

lemma fold_callbacks_hits:
  "activeHits (foldl (\<lambda>st tm. run_callback (snd tm) st) s tms)
     = activeHits s - {i. RemoveHit i \<in> snd ` set tms}"
proof (induction tms arbitrary: s)
  case Nil
  show ?case by simp
next
  case (Cons tm tms)
  show ?case using Cons [of "run_callback (snd tm) s"]
    by (cases "snd tm") auto
qed

lemma fold_callbacks_signals:
  "signals (foldl (\<lambda>st tm. run_callback (snd tm) st) s tms)
     = filter (\<lambda>x. RemoveSignal (sig_id x) \<notin> snd ` set tms) (signals s)"
proof (induction tms arbitrary: s)
  case Nil
  show ?case by simp
next
  case (Cons tm tms)
  show ?case using Cons [of "run_callback (snd tm) s"]
    by (cases "snd tm") (auto intro: filter_cong)
qed

lemma clock_elapse: "clock (elapse d s) = clock s + d"
  by (simp add: elapse_def Let_def fold_callbacks_frame)

lemma timers_elapse:
  "timers (elapse d s) = filter (\<lambda>tm. \<not> fst tm \<le> clock s + d) (timers s)"
  by (simp add: elapse_def Let_def fold_callbacks_frame)

lemma targets_elapse: "targets (elapse d s) = targets s"
  by (simp add: elapse_def Let_def fold_callbacks_frame)

lemma activeHits_elapse:
  "activeHits (elapse d s)
     = activeHits s - {i. \<exists>w\<le>clock s + d. (w, RemoveHit i) \<in> set (timers s)}"
  by (force simp: elapse_def Let_def fold_callbacks_hits image_iff)

lemma signals_elapse:
  "signals (elapse d s)
     = filter (\<lambda>x. \<not> (\<exists>w\<le>clock s + d. (w, RemoveSignal (sig_id x)) \<in> set (timers s)))
         (signals s)"
  unfolding elapse_def Let_def fold_callbacks_signals
  by (rule filter_cong) (force simp: image_iff)+

lemma timers_ahead_step: "timers_ahead s \<Longrightarrow> timers_ahead (step s e)"
  by (cases e)
     (auto simp: timers_ahead_def list_all_iff emitSignal_def hitTarget_def Let_def
        clock_elapse timers_elapse)

lemma timers_ahead_run: "timers_ahead s \<Longrightarrow> timers_ahead (run es s)"
  unfolding run_def by (induction es arbitrary: s) (simp_all add: timers_ahead_step)

lemma timers_ahead_initial: "timers_ahead initial_state"
  by (simp add: timers_ahead_def initial_state_def)

lemma step_distinct:
  "distinct (skills (targets s)) \<and> distinct (trace (targets s)) \<Longrightarrow>
   distinct (skills (targets (step s e))) \<and> distinct (trace (targets (step s e)))"
  by (cases e)
     (simp_all add: registerTarget_distinct emitSignal_def hitTarget_def Let_def targets_elapse)

lemma run_distinct:
  "distinct (skills (targets s)) \<and> distinct (trace (targets s)) \<Longrightarrow>
   distinct (skills (targets (run es s))) \<and> distinct (trace (targets (run es s)))"
  unfolding run_def
proof (induction es arbitrary: s)
  case Nil
  then show ?case by simp
next
  case (Cons e es)
  from Cons.prems have "distinct (skills (targets (step s e))) \<and> distinct (trace (targets (step s e)))"
    by (rule step_distinct)
  then show ?case using Cons.IH by simp
qed

lemma reachable_registry_distinct:
  "distinct (skills (targets (run es initial_state)))
   \<and> distinct (trace (targets (run es initial_state)))"
  by (rule run_distinct) (simp add: initial_state_def)


section \<open>The origin and the lifetime of a signal\<close>

text \<open>
  C9.  \<open>emitSignal\<close> appends one signal whose origin is the centre of the rectangle,
  \<open>(left + width / 2, top + height / 2)\<close>, with no scroll offset in it (the renderer adds
  the offsets later, in \<open>start_pos\<close>).  The rectangle at (100, 100) of size 20 by 20
  gives the origin (110, 110), and a rectangle of no area gives its corner.
\<close>

theorem emitSignal_origin:
  "signals (emitSignal rect col rnd36 s)
     = signals s @ [\<lparr>sig_id = substr rnd36 2 9,
                     startX = rect_left rect + rect_width rect / 2,
                     startY = rect_top rect + rect_height rect / 2,
                     color = col\<rparr>]
   \<and> startX (last (signals (emitSignal
        \<lparr>rect_left = 100, rect_top = 100, rect_width = 20, rect_height = 20\<rparr> col rnd36 s))) = 110
   \<and> startY (last (signals (emitSignal
        \<lparr>rect_left = 100, rect_top = 100, rect_width = 20, rect_height = 20\<rparr> col rnd36 s))) = 110
   \<and> startX (last (signals (emitSignal
        \<lparr>rect_left = l, rect_top = t, rect_width = 0, rect_height = 0\<rparr> col rnd36 s))) = l
   \<and> startY (last (signals (emitSignal
        \<lparr>rect_left = l, rect_top = t, rect_width = 0, rect_height = 0\<rparr> col rnd36 s))) = t"
  by (simp add: emitSignal_def Let_def)

text \<open>
  C7.  The identifier of a signal is cut out of the rendering of one random draw and
  of nothing else, so two calls whose draws render alike (here both draws are 0.5,
  rendered \<^verbatim>\<open>"0.i"\<close>) create two signals with the same identifier \<^verbatim>\<open>"i"\<close>, both
  in the active collection at once.
\<close>

theorem same_draw_same_identifier:
  "map sig_id (signals (run
      [EmitSignal \<lparr>rect_left = 100, rect_top = 100, rect_width = 20, rect_height = 20\<rparr> ''#00f3ff'' ''0.i'',
       EmitSignal \<lparr>rect_left = 300, rect_top = 100, rect_width = 20, rect_height = 20\<rparr> ''#d4af37'' ''0.i'']
      initial_state)) = [''i'', ''i'']"
  by code_simp

text \<open>
  C3.  With such a pair of signals, emitted at 0 ms and at 1000 ms, the removal timer
  of the first runs at 2500 ms and filters out every signal of that identifier: the
  second signal is still there at 2499 ms and gone at 2500 ms, which is 1500 ms after
  its emission.
\<close>

theorem signal_removed_early:
  "map sig_id (signals (run
      [EmitSignal \<lparr>rect_left = 100, rect_top = 100, rect_width = 20, rect_height = 20\<rparr> ''#00f3ff'' ''0.i'',
       Elapse 1000,
       EmitSignal \<lparr>rect_left = 300, rect_top = 100, rect_width = 20, rect_height = 20\<rparr> ''#d4af37'' ''0.i'',
       Elapse 1499]
      initial_state)) = [''i'', ''i'']
   \<and> signals (run
      [EmitSignal \<lparr>rect_left = 100, rect_top = 100, rect_width = 20, rect_height = 20\<rparr> ''#00f3ff'' ''0.i'',
       Elapse 1000,
       EmitSignal \<lparr>rect_left = 300, rect_top = 100, rect_width = 20, rect_height = 20\<rparr> ''#d4af37'' ''0.i'',
       Elapse 1500]
      initial_state) = []
   \<and> clock (run
      [EmitSignal \<lparr>rect_left = 100, rect_top = 100, rect_width = 20, rect_height = 20\<rparr> ''#00f3ff'' ''0.i'',
       Elapse 1000,
       EmitSignal \<lparr>rect_left = 300, rect_top = 100, rect_width = 20, rect_height = 20\<rparr> ''#d4af37'' ''0.i'',
       Elapse 1500]
      initial_state) = 2500"
  by code_simp

text \<open>
  When no other pending timer and no later emission shares the identifier, the signal
  is in the collection at every time less than 2500 ms after its emission, and no
  signal of that identifier is there from 2500 ms on.
\<close>

lemma signal_due_step:
  assumes "signal_due ident t s" and "\<not> emits ident e"
  shows "signal_due ident t (step s e)"
proof (cases e)
  case (RegisterTarget c h)
  with assms show ?thesis by (auto simp: signal_due_def)
next
  case (EmitSignal rect col rnd)
  with assms show ?thesis by (auto simp: signal_due_def emitSignal_def Let_def)
next
  case (HitTarget j)
  with assms show ?thesis by (auto simp: signal_due_def hitTarget_def)
next
  case (Elapse d)
  show ?thesis
    unfolding signal_due_def
  proof
    assume a: "ident \<in> sig_id ` set (signals (step s e))"
    with Elapse have in_s: "ident \<in> sig_id ` set (signals s)"
      and none: "\<not> (\<exists>w\<le>clock s + d. (w, RemoveSignal ident) \<in> set (timers s))"
      by (auto simp: signals_elapse)
    from assms(1) in_s obtain w where w: "w \<le> t" "(w, RemoveSignal ident) \<in> set (timers s)"
      by (auto simp: signal_due_def)
    with none have "\<not> w \<le> clock s + d" by blast
    with w Elapse show "\<exists>w\<le>t. (w, RemoveSignal ident) \<in> set (timers (step s e))"
      by (auto simp: timers_elapse)
  qed
qed

lemma signal_due_run:
  "signal_due ident t s \<Longrightarrow> list_all (\<lambda>e. \<not> emits ident e) es \<Longrightarrow> signal_due ident t (run es s)"
  unfolding run_def
proof (induction es arbitrary: s)
  case Nil
  then show ?case by simp
next
  case (Cons e es)
  from Cons.prems have "signal_due ident t (step s e)"
    by (auto intro: signal_due_step)
  with Cons show ?case by simp
qed

lemma sole_signal_step:
  assumes "sole_signal sg t s" and "\<not> emits (sig_id sg) e"
  shows "sole_signal sg t (step s e)"
proof (cases e)
  case (RegisterTarget c h)
  with assms show ?thesis by (auto simp: sole_signal_def)
next
  case (EmitSignal rect col rnd)
  with assms show ?thesis by (auto simp: sole_signal_def emitSignal_def Let_def)
next
  case (HitTarget j)
  with assms show ?thesis by (auto simp: sole_signal_def hitTarget_def)
next
  case (Elapse d)
  with assms show ?thesis
    by (fastforce simp: sole_signal_def list_all_iff signals_elapse timers_elapse clock_elapse)
qed

lemma sole_signal_run:
  "sole_signal sg t s \<Longrightarrow> list_all (\<lambda>e. \<not> emits (sig_id sg) e) es \<Longrightarrow> sole_signal sg t (run es s)"
  unfolding run_def
proof (induction es arbitrary: s)
  case Nil
  then show ?case by simp
next
  case (Cons e es)
  from Cons.prems have "sole_signal sg t (step s e)"
    by (auto intro: sole_signal_step)
  with Cons show ?case by simp
qed

lemma signal_lifetime:
  assumes "timers_ahead s" and "list_all (\<lambda>e. \<not> emits (substr rnd36 2 9) e) es"
  shows "(clock s + 2500 \<le> clock (run es (emitSignal rect col rnd36 s))
            \<longrightarrow> substr rnd36 2 9 \<notin> sig_id ` set (signals (run es (emitSignal rect col rnd36 s))))
     \<and> (RemoveSignal (substr rnd36 2 9) \<notin> snd ` set (timers s)
          \<and> clock (run es (emitSignal rect col rnd36 s)) < clock s + 2500
            \<longrightarrow> last (signals (emitSignal rect col rnd36 s))
                  \<in> set (signals (run es (emitSignal rect col rnd36 s))))"
proof -
  let ?i = "substr rnd36 2 9"
  let ?s1 = "emitSignal rect col rnd36 s"
  let ?sg = "last (signals ?s1)"
  have id: "sig_id ?sg = ?i" by (simp add: emitSignal_def Let_def)
  have ahead1: "timers_ahead ?s1"
    using timers_ahead_step [OF assms(1), of "EmitSignal rect col rnd36"] by simp
  have "signal_due ?i (clock s + 2500) ?s1"
    by (auto simp: signal_due_def emitSignal_def Let_def)
  then have due: "signal_due ?i (clock s + 2500) (run es ?s1)"
    using assms(2) by (rule signal_due_run)
  have a: "clock s + 2500 \<le> clock (run es ?s1) \<longrightarrow> ?i \<notin> sig_id ` set (signals (run es ?s1))"
  proof
    assume late: "clock s + 2500 \<le> clock (run es ?s1)"
    show "?i \<notin> sig_id ` set (signals (run es ?s1))"
    proof
      assume "?i \<in> sig_id ` set (signals (run es ?s1))"
      with due obtain w where w: "w \<le> clock s + 2500" "(w, RemoveSignal ?i) \<in> set (timers (run es ?s1))"
        by (auto simp: signal_due_def)
      with timers_ahead_run [OF ahead1, of es] have "clock (run es ?s1) < w"
        by (auto simp: timers_ahead_def list_all_iff)
      with w late show False by simp
    qed
  qed
  have b: "RemoveSignal ?i \<notin> snd ` set (timers s) \<and> clock (run es ?s1) < clock s + 2500
            \<longrightarrow> ?sg \<in> set (signals (run es ?s1))"
  proof
    assume h: "RemoveSignal ?i \<notin> snd ` set (timers s) \<and> clock (run es ?s1) < clock s + 2500"
    then have "sole_signal ?sg (clock s + 2500) ?s1"
      by (force simp: sole_signal_def emitSignal_def Let_def list_all_iff image_iff)
    then have "sole_signal ?sg (clock s + 2500) (run es ?s1)"
      using assms(2) id by (intro sole_signal_run) simp_all
    with h show "?sg \<in> set (signals (run es ?s1))" by (simp add: sole_signal_def)
  qed
  from a b show ?thesis by blast
qed


section \<open>The hit state\<close>

lemma removal_due_step:
  assumes "removal_due ident t s" and "e \<noteq> HitTarget ident"
  shows "removal_due ident t (step s e)"
proof (cases e)
  case (RegisterTarget c h)
  with assms show ?thesis by (auto simp: removal_due_def)
next
  case (EmitSignal rect col rnd)
  with assms show ?thesis by (auto simp: removal_due_def emitSignal_def Let_def)
next
  case (HitTarget j)
  with assms show ?thesis by (auto simp: removal_due_def hitTarget_def)
next
  case (Elapse d)
  show ?thesis
    unfolding removal_due_def
  proof
    assume a: "ident \<in> activeHits (step s e)"
    with Elapse have in_s: "ident \<in> activeHits s"
      and none: "\<not> (\<exists>w\<le>clock s + d. (w, RemoveHit ident) \<in> set (timers s))"
      by (auto simp: activeHits_elapse)
    from assms(1) in_s obtain w where w: "w \<le> t" "(w, RemoveHit ident) \<in> set (timers s)"
      by (auto simp: removal_due_def)
    with none have "\<not> w \<le> clock s + d" by blast
    with w Elapse show "\<exists>w\<le>t. (w, RemoveHit ident) \<in> set (timers (step s e))"
      by (auto simp: timers_elapse)
  qed
qed

lemma removal_due_run:
  "removal_due ident t s \<Longrightarrow> HitTarget ident \<notin> set es \<Longrightarrow> removal_due ident t (run es s)"
  unfolding run_def
proof (induction es arbitrary: s)
  case Nil
  then show ?case by simp
next
  case (Cons e es)
  from Cons.prems have "removal_due ident t (step s e)"
    by (auto intro: removal_due_step)
  with Cons show ?case by simp
qed

lemma absent_when_due:
  assumes "removal_due ident t s" and "timers_ahead s" and "t \<le> clock s"
  shows "ident \<notin> activeHits s"
proof
  assume "ident \<in> activeHits s"
  with assms(1) obtain w where w: "w \<le> t" "(w, RemoveHit ident) \<in> set (timers s)"
    by (auto simp: removal_due_def)
  with assms(2) have "clock s < w" by (auto simp: timers_ahead_def list_all_iff)
  with w assms(3) show False by simp
qed

lemma sole_removal_step:
  assumes "sole_removal ident t s" and "e \<noteq> HitTarget ident"
  shows "sole_removal ident t (step s e)"
proof (cases e)
  case (RegisterTarget c h)
  with assms show ?thesis by (auto simp: sole_removal_def)
next
  case (EmitSignal rect col rnd)
  with assms show ?thesis by (auto simp: sole_removal_def emitSignal_def Let_def)
next
  case (HitTarget j)
  with assms show ?thesis by (auto simp: sole_removal_def hitTarget_def)
next
  case (Elapse d)
  with assms show ?thesis
    by (fastforce simp: sole_removal_def list_all_iff activeHits_elapse timers_elapse clock_elapse)
qed

lemma sole_removal_run:
  "sole_removal ident t s \<Longrightarrow> HitTarget ident \<notin> set es \<Longrightarrow> sole_removal ident t (run es s)"
  unfolding run_def
proof (induction es arbitrary: s)
  case Nil
  then show ?case by simp
next
  case (Cons e es)
  from Cons.prems have "sole_removal ident t (step s e)"
    by (auto intro: sole_removal_step)
  with Cons show ?case by simp
qed

text \<open>
  C4, as stated, fails: the claim assumes only that no second call with the same
  identifier falls into the 500 ms after the call, and promises the identifier absent
  at every later time.  A second call 700 ms after the first is outside that window,
  and 800 ms after the first call the identifier is a member again.
\<close>

theorem hit_expires_counterexample:
  "clock (run [HitTarget ''skill-0'', Elapse 700] initial_state) = 700
   \<and> clock (run [HitTarget ''skill-0'', Elapse 700, HitTarget ''skill-0'', Elapse 100] initial_state) = 800
   \<and> ''skill-0'' \<in> activeHits
        (run [HitTarget ''skill-0'', Elapse 700, HitTarget ''skill-0'', Elapse 100] initial_state)"
  by code_simp

text \<open>
  C4, amended.  Timers run exactly when they are due.  Right after a call
  \<open>hitTarget ident\<close> the identifier is a member of the hit state.  If no later event
  of the run is a call with the same identifier, the identifier is not a member at any
  time 500 ms or more after the call; and if no removal timer of an earlier call with
  the same identifier is pending at the call, it is a member at every time less than
  500 ms after the call.
\<close>

theorem hit_expires:
  assumes "timers_ahead s" and "HitTarget ident \<notin> set es"
  shows "ident \<in> activeHits (hitTarget ident s)
     \<and> (clock s + 500 \<le> clock (run es (hitTarget ident s))
          \<longrightarrow> ident \<notin> activeHits (run es (hitTarget ident s)))
     \<and> (\<not> hit_pending ident s \<and> clock (run es (hitTarget ident s)) < clock s + 500
          \<longrightarrow> ident \<in> activeHits (run es (hitTarget ident s)))"
proof -
  let ?s1 = "hitTarget ident s"
  have ahead1: "timers_ahead ?s1"
    using timers_ahead_step [OF assms(1), of "HitTarget ident"] by simp
  have "removal_due ident (clock s + 500) ?s1"
    by (auto simp: removal_due_def hitTarget_def)
  then have due: "removal_due ident (clock s + 500) (run es ?s1)"
    using assms(2) by (rule removal_due_run)
  have a: "clock s + 500 \<le> clock (run es ?s1) \<longrightarrow> ident \<notin> activeHits (run es ?s1)"
    using absent_when_due [OF due timers_ahead_run [OF ahead1]] by blast
  have b: "\<not> hit_pending ident s \<and> clock (run es ?s1) < clock s + 500
            \<longrightarrow> ident \<in> activeHits (run es ?s1)"
  proof
    assume h: "\<not> hit_pending ident s \<and> clock (run es ?s1) < clock s + 500"
    then have "sole_removal ident (clock s + 500) ?s1"
      by (force simp: sole_removal_def hit_pending_def hitTarget_def list_all_iff image_iff)
    then have "sole_removal ident (clock s + 500) (run es ?s1)"
      using assms(2) by (rule sole_removal_run)
    with h show "ident \<in> activeHits (run es ?s1)" by (simp add: sole_removal_def)
  qed
  have c: "ident \<in> activeHits ?s1" by (simp add: hitTarget_def)
  from a b c show ?thesis by blast
qed

theorem hit_expires_witness:
  "''skill-0'' \<in> activeHits (hitTarget ''skill-0'' initial_state)
   \<and> ''skill-0'' \<notin> activeHits
        (run [Elapse 200, HitTarget ''trace-1'', Elapse 300] (hitTarget ''skill-0'' initial_state))
   \<and> ''skill-0'' \<in> activeHits
        (run [Elapse 200, HitTarget ''trace-1'', Elapse 299] (hitTarget ''skill-0'' initial_state))"
proof -
  have h: "HitTarget ''skill-0'' \<notin> set [Elapse 200, HitTarget ''trace-1'', Elapse 300]"
    "HitTarget ''skill-0'' \<notin> set [Elapse 200, HitTarget ''trace-1'', Elapse 299]"
    by simp_all
  have c: "clock initial_state + 500
        \<le> clock (run [Elapse 200, HitTarget ''trace-1'', Elapse 300] (hitTarget ''skill-0'' initial_state))"
    "\<not> hit_pending ''skill-0'' initial_state
      \<and> clock (run [Elapse 200, HitTarget ''trace-1'', Elapse 299] (hitTarget ''skill-0'' initial_state))
          < clock initial_state + 500"
    by (simp_all add: run_def hitTarget_def clock_elapse initial_state_def hit_pending_def)
  show ?thesis
    using hit_expires [OF timers_ahead_initial h(1)] hit_expires [OF timers_ahead_initial h(2)] c
    by blast
qed


section \<open>The renderer\<close>

text \<open>
  The rounding: \<open>floor_log2 x\<close> is the exponent of \<open>x\<close>, a rounded number is at most
  half an \<open>ulp\<close> above the exact one, and the largest double below 1 is
  \<open>1 - 2\<^sup>-\<^sup>5\<^sup>3\<close>.  So the rounded product of a draw and a length stays below the
  length, although it can reach the next integer above the exact product (three
  times the double nearest to 2/3 is 2).
\<close>

lemma bit_length_upper: "n < 2 ^ bit_length n"
proof (induction n rule: bit_length.induct)
  case (1 n)
  show ?case
  proof (cases "n = 0")
    case True
    then show ?thesis by (simp add: bit_length.simps)
  next
    case False
    with 1 have "n div 2 < 2 ^ bit_length (n div 2)" by simp
    then have "n < 2 * 2 ^ bit_length (n div 2)" by linarith
    with False show ?thesis by (simp add: bit_length.simps [of n])
  qed
qed

lemma bit_length_lower: "0 < n \<Longrightarrow> 2 ^ (bit_length n - 1) \<le> n"
proof (induction n rule: bit_length.induct)
  case (1 n)
  show ?case
  proof (cases "n div 2 = 0")
    case True
    with 1 show ?thesis by (simp add: bit_length.simps [of n] bit_length.simps [of 0])
  next
    case False
    with 1 have ih: "2 ^ (bit_length (n div 2) - 1) \<le> n div 2" by simp
    from False have pos: "0 < bit_length (n div 2)" by (simp add: bit_length.simps [of "n div 2"])
    have "(2::nat) ^ bit_length (n div 2) = 2 * 2 ^ (bit_length (n div 2) - 1)"
      using pos by (cases "bit_length (n div 2)") simp_all
    with ih have "2 ^ bit_length (n div 2) \<le> n" by linarith
    with 1 show ?thesis by (simp add: bit_length.simps [of n])
  qed
qed

lemma floor_log2_lower:
  assumes "0 < x"
  shows "2 powi floor_log2 x \<le> x"
proof (cases "1 \<le> x")
  case True
  then have p: "0 < nat \<lfloor>x\<rfloor>" by simp
  have "(2::rat) powi (int (bit_length (nat \<lfloor>x\<rfloor>)) - 1) = 2 ^ (bit_length (nat \<lfloor>x\<rfloor>) - 1)"
  proof -
    from p have "0 < bit_length (nat \<lfloor>x\<rfloor>)" by (simp add: bit_length.simps [of "nat \<lfloor>x\<rfloor>"])
    then have "int (bit_length (nat \<lfloor>x\<rfloor>)) - 1 = int (bit_length (nat \<lfloor>x\<rfloor>) - 1)" by simp
    then show ?thesis by (simp only: power_int_of_nat)
  qed
  also have "\<dots> = of_nat (2 ^ (bit_length (nat \<lfloor>x\<rfloor>) - 1))" by simp
  also have "\<dots> \<le> of_nat (nat \<lfloor>x\<rfloor>)"
    using bit_length_lower [OF p] by (simp only: of_nat_le_iff)
  also have "\<dots> = of_int \<lfloor>x\<rfloor>" using True by simp
  also have "\<dots> \<le> x" by simp
  finally show ?thesis using True by (simp add: floor_log2_def)
next
  case False
  define k where "k = \<lceil>1 / x\<rceil>"
  define m where "m = nat (k - 1)"
  have "1 < 1 / x" using assms False by simp
  then have c: "2 \<le> k" unfolding k_def by (simp add: le_ceiling_iff)
  have km: "k = int (m + 1)" using c by (simp add: m_def)
  have "1 / x \<le> of_int k" unfolding k_def by simp
  also have "\<dots> = of_nat (m + 1)" unfolding km by (simp only: of_int_of_nat_eq)
  also have "\<dots> \<le> of_nat (2 ^ bit_length m)"
    using bit_length_upper [of m] by (simp only: of_nat_le_iff)
  also have "\<dots> = (2::rat) ^ bit_length m" by simp
  finally have "1 / x \<le> 2 ^ bit_length m" .
  then have "1 / 2 ^ bit_length m \<le> x" using assms
    by (simp add: field_simps)
  moreover have "(2::rat) powi floor_log2 x = 1 / 2 ^ bit_length m"
    using False by (simp add: floor_log2_def m_def k_def power_int_minus_divide)
  ultimately show ?thesis by simp
qed

lemma floor_log2_upper:
  assumes "0 < x"
  shows "x < 2 powi (floor_log2 x + 1)"
proof (cases "1 \<le> x")
  case True
  define j where "j = nat \<lfloor>x\<rfloor>"
  have j: "of_int \<lfloor>x\<rfloor> = (of_nat j :: rat)" using True by (simp add: j_def)
  have "x < of_int \<lfloor>x\<rfloor> + 1" by linarith
  also have "\<dots> = of_nat (j + 1)" unfolding j by simp
  also have "\<dots> \<le> of_nat (2 ^ bit_length j)"
    using bit_length_upper [of j] by (simp only: of_nat_le_iff)
  also have "\<dots> = (2::rat) powi (int (bit_length j))" by simp
  finally show ?thesis using True by (simp add: floor_log2_def j_def)
next
  case False
  define k where "k = \<lceil>1 / x\<rceil>"
  define m where "m = nat (k - 1)"
  have "1 < 1 / x" using assms False by simp
  then have c: "2 \<le> k" unfolding k_def by (simp add: le_ceiling_iff)
  then have mp: "0 < m" by (simp add: m_def)
  then have bp: "0 < bit_length m" by (simp add: bit_length.simps [of m])
  have "(of_nat (2 ^ (bit_length m - 1)) :: rat) \<le> of_nat m"
    using bit_length_lower [OF mp] by (simp only: of_nat_le_iff)
  also have "\<dots> = of_int k - 1" using c by (simp add: m_def)
  also have "\<dots> < 1 / x" unfolding k_def using ceiling_correct [of "1 / x"] by simp
  finally have "(2::rat) ^ (bit_length m - 1) < 1 / x" by simp
  then have lt: "x < 1 / 2 ^ (bit_length m - 1)" using assms by (simp add: field_simps)
  have "floor_log2 x + 1 = - int (bit_length m - 1)"
    using False bp by (simp add: floor_log2_def m_def k_def)
  then have "(2::rat) powi (floor_log2 x + 1) = 1 / 2 ^ (bit_length m - 1)"
    by (simp only: power_int_minus_divide power_int_of_nat)
  with lt show ?thesis by simp
qed

lemma floor_log2_half:
  assumes "1 / 2 \<le> x" and "x < 1"
  shows "floor_log2 x = - 1"
proof -
  have pos: "0 < x" using assms by simp
  have "1 < 1 / x" "1 / x \<le> 2" using assms pos by (simp_all add: field_simps)
  then have "\<lceil>1 / x\<rceil> = 2" by (simp add: ceiling_eq_iff)
  then show ?thesis using assms by (simp add: floor_log2_def bit_length.simps)
qed

lemma round_even_le: "of_int (round_even y) \<le> y + 1 / 2"
proof (cases "1 / 2 < y - of_int \<lfloor>y\<rfloor> \<or> (y - of_int \<lfloor>y\<rfloor> = 1 / 2 \<and> odd \<lfloor>y\<rfloor>)")
  case True
  then have "1 / 2 \<le> y - of_int \<lfloor>y\<rfloor>" by auto
  then have "of_int (\<lfloor>y\<rfloor> + 1) \<le> y + 1 / 2" by simp
  with True show ?thesis by (simp only: round_even_def Let_def if_True)
next
  case False
  have "of_int \<lfloor>y\<rfloor> \<le> y + 1 / 2"
    using of_int_floor_le [of y] by linarith
  with False show ?thesis by (simp only: round_even_def Let_def if_False)
qed

lemma round_even_nonneg: "0 \<le> y \<Longrightarrow> 0 \<le> round_even y"
  by (auto simp: round_even_def Let_def)

lemma ulp_pos: "0 < ulp x"
  by (simp add: ulp_def)

lemma round_double_nonneg: "0 \<le> x \<Longrightarrow> 0 \<le> round_double x"
  using ulp_pos [of x] by (simp add: round_double_def round_even_nonneg)

lemma round_double_le: "round_double x \<le> x + ulp x / 2"
proof (cases "x = 0")
  case True
  then show ?thesis using ulp_pos [of x] by (simp add: round_double_def)
next
  case False
  have "of_int (round_even (x / ulp x)) * ulp x \<le> (x / ulp x + 1 / 2) * ulp x"
    using round_even_le [of "x / ulp x"] ulp_pos [of x] by (simp only: mult_le_cancel_right_pos)
  also have "\<dots> = x + ulp x / 2" using ulp_pos [of x] by (simp add: field_simps)
  finally show ?thesis using False by (simp add: round_double_def)
qed

lemma ulp_le:
  assumes "0 < x"
  shows "ulp x \<le> max x (2 powi (- 1022)) / 2 ^ 52"
proof -
  have "ulp x = 2 powi (max (floor_log2 x) (- 1022)) / 2 ^ 52"
    by (simp add: ulp_def power_int_diff)
  moreover have "(2::rat) powi (max (floor_log2 x) (- 1022)) \<le> max x (2 powi (- 1022))"
    using floor_log2_lower [OF assms] by (auto simp: max_def)
  ultimately show ?thesis by (simp add: divide_right_mono)
qed

lemma double_below_one:
  assumes "is_double r" and "r < 1"
  shows "r \<le> 1 - 1 / 2 ^ 53"
proof (cases "1 / 2 \<le> r")
  case False
  then show ?thesis by simp
next
  case True
  define p :: rat where "p = of_int (2 ^ 53)"
  have p: "p = 2 ^ 53" by (simp add: p_def)
  have pp: "0 < p" by (simp add: p)
  have u: "ulp r = 1 / p"
    using floor_log2_half [OF True assms(2)] by (simp add: ulp_def power_int_minus_divide p)
  from True have nz: "r \<noteq> 0" by auto
  define m where "m = round_even (r / ulp r)"
  have "round_double r = r" using assms(1) by (simp add: is_double_def)
  then have "of_int m * ulp r = r" using nz by (simp only: round_double_def m_def if_False)
  then have r: "r = of_int m / p" unfolding u by simp
  with assms(2) pp have "(of_int m :: rat) < p" by (simp add: field_simps)
  then have "m < 2 ^ 53" unfolding p_def by (simp only: of_int_less_iff)
  then have "m \<le> 2 ^ 53 - 1" by simp
  then have "(of_int m :: rat) \<le> of_int (2 ^ 53 - 1)" by (simp only: of_int_le_iff)
  also have "\<dots> = p - 1" by (simp add: p)
  finally have "of_int m / p \<le> (p - 1) / p" using pp by (simp only: divide_right_mono less_imp_le)
  also have "\<dots> = 1 - 1 / p" using pp by (simp add: field_simps)
  finally show ?thesis unfolding r p .
qed

lemma draw_times_length:
  assumes "is_double r" and "r < 1" and "0 < n"
  shows "0 \<le> round_double (r * of_nat n) \<and> round_double (r * of_nat n) < of_nat n"
proof -
  have r0: "0 \<le> r" using assms(1) by (simp add: is_double_def)
  have n1: "(1::rat) \<le> of_nat n" using assms(3) by simp
  let ?x = "r * of_nat n"
  have x0: "0 \<le> ?x" using r0 by simp
  have le: "?x \<le> of_nat n - of_nat n / 2 ^ 53"
  proof -
    have "?x \<le> (1 - 1 / 2 ^ 53) * of_nat n"
      using double_below_one [OF assms(1,2)] by (simp only: mult_right_mono of_nat_0_le_iff)
    then show ?thesis by (simp add: algebra_simps)
  qed
  have upper: "round_double ?x < of_nat n"
  proof (cases "?x = 0")
    case True
    then show ?thesis using assms(3) by (simp add: round_double_def)
  next
    case False
    with x0 have xp: "0 < ?x" by (simp only: less_le) simp
    have q: "0 < of_nat n / (2::rat) ^ 53" using assms(3) by simp
    have "?x < of_nat n" using le q by linarith
    moreover have "(2::rat) powi (- 1022) < of_nat n"
    proof -
      have "(2::rat) powi (- 1022) < 1" by (simp add: power_int_minus_divide)
      with n1 show ?thesis by simp
    qed
    ultimately have "max ?x (2 powi (- 1022)) < of_nat n" by simp
    then have "max ?x (2 powi (- 1022)) / 2 ^ 52 < of_nat n / 2 ^ 52"
      by (simp add: divide_strict_right_mono)
    with ulp_le [OF xp] have "ulp ?x < of_nat n / 2 ^ 52" by (rule le_less_trans)
    then have "ulp ?x / 2 < of_nat n / 2 ^ 53" by simp
    with round_double_le [of ?x] le show ?thesis by linarith
  qed
  with round_double_nonneg [OF x0] show ?thesis by simp
qed

lemma pick_target_Nil: "pick_target r [] = None"
  by (simp add: pick_target_def js_at_def)

lemma pick_target_Some:
  assumes "is_double r" "r < 1" "hs \<noteq> []"
  shows "nat \<lfloor>round_double (r * of_nat (length hs))\<rfloor> < length hs
         \<and> pick_target r hs = Some (hs ! nat \<lfloor>round_double (r * of_nat (length hs))\<rfloor>)"
proof -
  define k where "k = \<lfloor>round_double (r * of_nat (length hs))\<rfloor>"
  have "0 < length hs" using assms(3) by simp
  from draw_times_length [OF assms(1,2) this]
  have "0 \<le> k" "k < int (length hs)"
    unfolding k_def by (simp_all add: floor_less_iff)
  then show ?thesis unfolding k_def [symmetric]
    by (simp add: pick_target_def js_at_def nat_less_iff k_def)
qed

lemma first_render_hooks:
  "fst (SignalPacket None r1 r2 sg tg pg) =
     \<lparr>skillTarget = pick_target r1 (skills tg), traceTarget = pick_target r2 (trace tg)\<rparr>"
  by (simp add: SignalPacket_def useMemo_def Let_def)

lemma later_render_hooks:
  "fst (SignalPacket (Some hooks) r1 r2 sg tg pg) = hooks"
  by (simp add: SignalPacket_def useMemo_def Let_def)

text \<open>
  C5.  With three handles in \<open>skills\<close> and two in \<open>trace\<close>, and every pair of draws
  that are doubles in \<open>[0, 1)\<close>, the first render picks the handles at the positions
  \<open>\<lfloor>round_double (3 r1)\<rfloor> < 3\<close> and \<open>\<lfloor>round_double (2 r2)\<rfloor> < 2\<close>, the products
  rounded as the multiplication of doubles rounds them: the pair is one of the six
  pairs of registered handles.  Every later render of the instance, whatever the
  draws, the registry and the page are by then, keeps that pick.
\<close>

theorem pick_among_registered:
  assumes "length (skills tg) = 3" and "length (trace tg) = 2"
    and "is_double r1" and "r1 < 1" and "is_double r2" and "r2 < 1"
  shows "nat \<lfloor>round_double (r1 * 3)\<rfloor> < 3 \<and> nat \<lfloor>round_double (r2 * 2)\<rfloor> < 2
     \<and> fst (SignalPacket None r1 r2 sg tg pg) =
         \<lparr>skillTarget = Some (skills tg ! nat \<lfloor>round_double (r1 * 3)\<rfloor>),
          traceTarget = Some (trace tg ! nat \<lfloor>round_double (r2 * 2)\<rfloor>)\<rparr>
     \<and> (skills tg ! nat \<lfloor>round_double (r1 * 3)\<rfloor>, trace tg ! nat \<lfloor>round_double (r2 * 2)\<rfloor>)
           \<in> set (List.product (skills tg) (trace tg))
     \<and> length (List.product (skills tg) (trace tg)) = 6
     \<and> fst (SignalPacket (Some (fst (SignalPacket None r1 r2 sg tg pg))) r1' r2' sg' tg' pg')
           = fst (SignalPacket None r1 r2 sg tg pg)"
proof -
  have s: "skills tg \<noteq> []" and t: "trace tg \<noteq> []" using assms(1,2) by auto
  have a: "nat \<lfloor>round_double (r1 * 3)\<rfloor> < 3
      \<and> pick_target r1 (skills tg) = Some (skills tg ! nat \<lfloor>round_double (r1 * 3)\<rfloor>)"
    using pick_target_Some [OF assms(3,4) s] assms(1) by simp
  have b: "nat \<lfloor>round_double (r2 * 2)\<rfloor> < 2
      \<and> pick_target r2 (trace tg) = Some (trace tg ! nat \<lfloor>round_double (r2 * 2)\<rfloor>)"
    using pick_target_Some [OF assms(5,6) t] assms(2) by simp
  show ?thesis using a b assms(1,2)
    by (simp add: first_render_hooks later_render_hooks)
qed

theorem pick_among_registered_witness:
  "fst (SignalPacket None (6004799503160661 / 2 ^ 53) (1 / 4)
          \<lparr>sig_id = ''i'', startX = 110, startY = 110, color = ''red''\<rparr>
          \<lparr>skills = [10, 11, 12], trace = [20, 21]\<rparr>
          \<lparr>scrollX = 0, scrollY = 0, current = (\<lambda>_. None)\<rparr>)
     = \<lparr>skillTarget = Some 12, traceTarget = Some 20\<rparr>
   \<and> fst (SignalPacket
          (Some (fst (SignalPacket None (6004799503160661 / 2 ^ 53) (1 / 4)
             \<lparr>sig_id = ''i'', startX = 110, startY = 110, color = ''red''\<rparr>
             \<lparr>skills = [10, 11, 12], trace = [20, 21]\<rparr>
             \<lparr>scrollX = 0, scrollY = 0, current = (\<lambda>_. None)\<rparr>)))
          0 0
          \<lparr>sig_id = ''i'', startX = 110, startY = 110, color = ''red''\<rparr>
          \<lparr>skills = [10, 11, 12, 13], trace = [20, 21, 22]\<rparr>
          \<lparr>scrollX = 0, scrollY = 40, current = (\<lambda>_. None)\<rparr>)
     = \<lparr>skillTarget = Some 12, traceTarget = Some 20\<rparr>"
proof -
  have f: "nat \<lfloor>round_double (6004799503160661 / 2 ^ 53 * 3)\<rfloor> = 2"
    "nat \<lfloor>round_double (1 / 4 * 2)\<rfloor> = 0"
    by code_simp+
  have d: "round_double (6004799503160661 / 2 ^ 53) = 6004799503160661 / 2 ^ 53"
    "round_double (1 / 4) = 1 / 4"
    by code_simp+
  have h: "length (skills \<lparr>skills = [10, 11, 12], trace = [20, 21]\<rparr>) = 3"
    "length (trace \<lparr>skills = [10, 11, 12], trace = [20, 21]\<rparr>) = 2"
    "is_double (6004799503160661 / 2 ^ 53)" "(6004799503160661 / 2 ^ 53 :: rat) < 1"
    "is_double (1 / 4)" "(1 / 4 :: rat) < 1"
    unfolding is_double_def d by simp_all
  note w = pick_among_registered [OF h,
      of "\<lparr>sig_id = ''i'', startX = 110, startY = 110, color = ''red''\<rparr>"
         "\<lparr>scrollX = 0, scrollY = 0, current = (\<lambda>_. None)\<rparr>" 0 0
         "\<lparr>sig_id = ''i'', startX = 110, startY = 110, color = ''red''\<rparr>"
         "\<lparr>skills = [10, 11, 12, 13], trace = [20, 21, 22]\<rparr>"
         "\<lparr>scrollX = 0, scrollY = 40, current = (\<lambda>_. None)\<rparr>", unfolded f]
  from w have a: "fst (SignalPacket None (6004799503160661 / 2 ^ 53) (1 / 4)
          \<lparr>sig_id = ''i'', startX = 110, startY = 110, color = ''red''\<rparr>
          \<lparr>skills = [10, 11, 12], trace = [20, 21]\<rparr>
          \<lparr>scrollX = 0, scrollY = 0, current = (\<lambda>_. None)\<rparr>)
     = \<lparr>skillTarget = Some 12, traceTarget = Some 20\<rparr>"
    by simp
  from w show ?thesis unfolding a by simp
qed

lemma getPos_unresolved:
  "ref = None \<or> (\<exists>h. ref = Some h \<and> current pg h = None) \<Longrightarrow> getPos pg ref = \<lparr>pos_x = 0, pos_y = 0\<rparr>"
  by (auto simp: getPos_def)

lemma safeEnd_fallback:
  "getPos pg (traceTarget hooks) = \<lparr>pos_x = 0, pos_y = 0\<rparr> \<Longrightarrow>
   safeEnd pg sg hooks = \<lparr>pos_x = pos_x (safeMid pg sg hooks), pos_y = pos_y (safeMid pg sg hooks) + 800\<rparr>"
  by (simp add: safeEnd_def Let_def)

lemma motion_of_render:
  "snd (SignalPacket stored r1 r2 sg tg pg) =
     (let hooks = fst (SignalPacket stored r1 r2 sg tg pg)
      in \<lparr>keys_left = [pos_x (start_pos pg sg), pos_x (safeMid pg sg hooks), pos_x (safeEnd pg sg hooks)],
           keys_top = [pos_y (start_pos pg sg), pos_y (safeMid pg sg hooks), pos_y (safeEnd pg sg hooks)],
           keys_opacity = [1, 1, 0], keys_scale = [1, 1, 0], duration = 5 / 2,
           key_times = [0, 2 / 5, 1]\<rparr>)"
  by (simp add: SignalPacket_def Let_def)

text \<open>
  C6.  When the trace category is empty at the first render, or the instance holds no
  trace handle, or the handle it holds has no element (\<^verbatim>\<open>ref.current\<close> is
  \<^verbatim>\<open>null\<close>), the third keyframe has the x coordinate of the second and its y coordinate
  plus 800, the second keyframe being the midpoint stage \<open>safeMid\<close>; the duration of
  the animation is 2.5 all the same.
\<close>

theorem endpoint_fallback:
  assumes "(stored = None \<and> trace tg = [])
           \<or> traceTarget (fst (SignalPacket stored r1 r2 sg tg pg)) = None
           \<or> (\<exists>h. traceTarget (fst (SignalPacket stored r1 r2 sg tg pg)) = Some h \<and> current pg h = None)"
  shows "keys_left (snd (SignalPacket stored r1 r2 sg tg pg)) ! 2
           = keys_left (snd (SignalPacket stored r1 r2 sg tg pg)) ! 1
       \<and> keys_top (snd (SignalPacket stored r1 r2 sg tg pg)) ! 2
           = keys_top (snd (SignalPacket stored r1 r2 sg tg pg)) ! 1 + 800
       \<and> keys_left (snd (SignalPacket stored r1 r2 sg tg pg)) ! 1
           = pos_x (safeMid pg sg (fst (SignalPacket stored r1 r2 sg tg pg)))
       \<and> keys_top (snd (SignalPacket stored r1 r2 sg tg pg)) ! 1
           = pos_y (safeMid pg sg (fst (SignalPacket stored r1 r2 sg tg pg)))
       \<and> safeEnd pg sg (fst (SignalPacket stored r1 r2 sg tg pg))
           = \<lparr>pos_x = pos_x (safeMid pg sg (fst (SignalPacket stored r1 r2 sg tg pg))),
              pos_y = pos_y (safeMid pg sg (fst (SignalPacket stored r1 r2 sg tg pg))) + 800\<rparr>
       \<and> duration (snd (SignalPacket stored r1 r2 sg tg pg)) = 5 / 2"
proof -
  let ?hooks = "fst (SignalPacket stored r1 r2 sg tg pg)"
  have "traceTarget ?hooks = None \<or> (\<exists>h. traceTarget ?hooks = Some h \<and> current pg h = None)"
    using assms by (auto simp: first_render_hooks pick_target_Nil)
  then have "getPos pg (traceTarget ?hooks) = \<lparr>pos_x = 0, pos_y = 0\<rparr>"
    by (rule getPos_unresolved)
  then have "safeEnd pg sg ?hooks
      = \<lparr>pos_x = pos_x (safeMid pg sg ?hooks), pos_y = pos_y (safeMid pg sg ?hooks) + 800\<rparr>"
    by (rule safeEnd_fallback)
  then show ?thesis by (simp add: motion_of_render Let_def)
qed

theorem endpoint_fallback_witness:
  "keys_left (snd (SignalPacket None (1 / 2) (1 / 2)
       \<lparr>sig_id = ''i'', startX = 110, startY = 110, color = ''red''\<rparr>
       \<lparr>skills = [10], trace = []\<rparr>
       \<lparr>scrollX = 0, scrollY = 30,
          current = (\<lambda>h. if h = 10 then Some \<lparr>rect_left = 100, rect_top = 200, rect_width = 40,
            rect_height = 20\<rparr> else None)\<rparr>)) = [110, 120, 120]
   \<and> keys_top (snd (SignalPacket None (1 / 2) (1 / 2)
       \<lparr>sig_id = ''i'', startX = 110, startY = 110, color = ''red''\<rparr>
       \<lparr>skills = [10], trace = []\<rparr>
       \<lparr>scrollX = 0, scrollY = 30,
          current = (\<lambda>h. if h = 10 then Some \<lparr>rect_left = 100, rect_top = 200, rect_width = 40,
            rect_height = 20\<rparr> else None)\<rparr>)) = [140, 240, 1040]
   \<and> duration (snd (SignalPacket None (1 / 2) (1 / 2)
       \<lparr>sig_id = ''i'', startX = 110, startY = 110, color = ''red''\<rparr>
       \<lparr>skills = [10], trace = []\<rparr>
       \<lparr>scrollX = 0, scrollY = 30,
          current = (\<lambda>h. if h = 10 then Some \<lparr>rect_left = 100, rect_top = 200, rect_width = 40,
            rect_height = 20\<rparr> else None)\<rparr>)) = 5 / 2"
proof -
  have h: "((None :: PacketHooks option) = None \<and> trace \<lparr>skills = [10], trace = []\<rparr> = [])
      \<or> traceTarget (fst (SignalPacket None (1 / 2) (1 / 2)
       \<lparr>sig_id = ''i'', startX = 110, startY = 110, color = ''red''\<rparr>
       \<lparr>skills = [10], trace = []\<rparr>
       \<lparr>scrollX = 0, scrollY = 30,
          current = (\<lambda>h. if h = 10 then Some \<lparr>rect_left = 100, rect_top = 200, rect_width = 40,
            rect_height = 20\<rparr> else None)\<rparr>)) = None
      \<or> (\<exists>h. traceTarget (fst (SignalPacket None (1 / 2) (1 / 2)
       \<lparr>sig_id = ''i'', startX = 110, startY = 110, color = ''red''\<rparr>
       \<lparr>skills = [10], trace = []\<rparr>
       \<lparr>scrollX = 0, scrollY = 30,
          current = (\<lambda>h. if h = 10 then Some \<lparr>rect_left = 100, rect_top = 200, rect_width = 40,
            rect_height = 20\<rparr> else None)\<rparr>)) = Some h \<and> current \<lparr>scrollX = 0, scrollY = 30,
          current = (\<lambda>h. if h = 10 then Some \<lparr>rect_left = 100, rect_top = 200, rect_width = 40,
            rect_height = 20\<rparr> else None)\<rparr> h = None)"
    by simp
  have p: "pick_target (1 / 2) [10] = Some 10"
    by code_simp
  show ?thesis
    using endpoint_fallback [OF h] p
    by (simp add: SignalPacket_def useMemo_def Let_def safeMid_def safeEnd_def getPos_def
        start_pos_def pick_target_Nil)
qed


section \<open>Hit identifiers\<close>

lemma indexOf_bounds: "- 1 \<le> indexOf xs x \<and> indexOf xs x < int (length xs)"
  by (induction xs) (auto simp: Let_def)

lemma indexOf_eq:
  "indexOf xs x = (if x \<in> set xs then int (length (takeWhile (\<lambda>y. y \<noteq> x) xs)) else - 1)"
proof (induction xs)
  case Nil
  show ?case by simp
next
  case (Cons y ys)
  show ?case using Cons indexOf_bounds [of ys x] by (auto simp: Let_def)
qed

lemma indexOf_nth_distinct:
  "distinct xs \<Longrightarrow> i < length xs \<Longrightarrow> indexOf xs (xs ! i) = int i"
proof (induction xs arbitrary: i)
  case Nil
  then show ?case by simp
next
  case (Cons y ys)
  show ?case
  proof (cases i)
    case 0
    then show ?thesis by simp
  next
    case (Suc j)
    with Cons.prems have "ys ! j \<noteq> y" "indexOf ys (ys ! j) = int j"
      using Cons.IH [of j] by auto
    with Suc show ?thesis by (simp add: Let_def)
  qed
qed

lemma indexOf_append: "x \<in> set xs \<Longrightarrow> indexOf (xs @ ys) x = indexOf xs x"
  by (simp add: indexOf_eq takeWhile_append1 split: if_splits)

lemma t1_eq:
  "t1 hooks tg =
     (case skillTarget hooks of
        None \<Rightarrow> None
      | Some h \<Rightarrow>
          if h \<in> set (skills tg)
          then Some (''skill-'' @ num_str (int (length (takeWhile (\<lambda>y. y \<noteq> h) (skills tg)))))
          else None)"
  by (simp add: t1_def indexOf_eq Let_def split: option.split)

lemma t2_eq:
  "t2 hooks tg =
     (case traceTarget hooks of
        None \<Rightarrow> None
      | Some h \<Rightarrow>
          if h \<in> set (trace tg)
          then Some (''trace-'' @ num_str (int (length (takeWhile (\<lambda>y. y \<noteq> h) (trace tg)))))
          else None)"
  by (simp add: t2_def indexOf_eq Let_def split: option.split)

lemma t1_of_pick:
  assumes "distinct (skills tg)" and "is_double r" and "r < 1" and "skills tg \<noteq> []"
    and "skills tg' = skills tg @ extra"
  shows "t1 (fst (SignalPacket None r r2 sg tg pg)) tg'
           = Some (''skill-'' @ num_str \<lfloor>round_double (r * of_nat (length (skills tg)))\<rfloor>)"
proof -
  define k where "k = \<lfloor>round_double (r * of_nat (length (skills tg)))\<rfloor>"
  have r0: "0 \<le> r" using assms(2) by (simp add: is_double_def)
  have nn: "0 \<le> k" unfolding k_def using round_double_nonneg [of "r * of_nat (length (skills tg))"] r0
    by simp
  have p: "nat k < length (skills tg)" "pick_target r (skills tg) = Some (skills tg ! nat k)"
    unfolding k_def using pick_target_Some [OF assms(2,3,4)] by simp_all
  have "indexOf (skills tg') (skills tg ! nat k) = indexOf (skills tg) (skills tg ! nat k)"
    using p(1) by (simp add: assms(5) indexOf_append)
  also have "\<dots> = int (nat k)" using assms(1) p(1) by (rule indexOf_nth_distinct)
  also have "\<dots> = k" using nn by simp
  finally have i: "indexOf (skills tg') (skills tg ! nat k) = k" .
  have "t1 (fst (SignalPacket None r r2 sg tg pg)) tg' = Some (''skill-'' @ num_str k)"
    using p(2) nn i by (simp add: t1_def first_render_hooks Let_def)
  then show ?thesis unfolding k_def .
qed

lemma t2_of_pick:
  assumes "distinct (trace tg)" and "is_double r" and "r < 1" and "trace tg \<noteq> []"
    and "trace tg' = trace tg @ extra"
  shows "t2 (fst (SignalPacket None r1 r sg tg pg)) tg'
           = Some (''trace-'' @ num_str \<lfloor>round_double (r * of_nat (length (trace tg)))\<rfloor>)"
proof -
  define k where "k = \<lfloor>round_double (r * of_nat (length (trace tg)))\<rfloor>"
  have r0: "0 \<le> r" using assms(2) by (simp add: is_double_def)
  have nn: "0 \<le> k" unfolding k_def using round_double_nonneg [of "r * of_nat (length (trace tg))"] r0
    by simp
  have p: "nat k < length (trace tg)" "pick_target r (trace tg) = Some (trace tg ! nat k)"
    unfolding k_def using pick_target_Some [OF assms(2,3,4)] by simp_all
  have "indexOf (trace tg') (trace tg ! nat k) = indexOf (trace tg) (trace tg ! nat k)"
    using p(1) by (simp add: assms(5) indexOf_append)
  also have "\<dots> = int (nat k)" using assms(1) p(1) by (rule indexOf_nth_distinct)
  also have "\<dots> = k" using nn by simp
  finally have i: "indexOf (trace tg') (trace tg ! nat k) = k" .
  have "t2 (fst (SignalPacket None r1 r sg tg pg)) tg' = Some (''trace-'' @ num_str k)"
    using p(2) nn i by (simp add: t2_def first_render_hooks Let_def)
  then show ?thesis unfolding k_def .
qed

text \<open>
  Mounting timeline items or changing the view leaves the skill nodes and the skills
  collection as they are.
\<close>

lemma TimelineItem_mount_frame:
  "skill_nodes (TimelineItem_mount ct i) = skill_nodes ct
   \<and> skills (registry (TimelineItem_mount ct i)) = skills (registry ct)"
  by (simp add: TimelineItem_mount_def Let_def registerTarget_def)

lemma mount_items_frame:
  "skill_nodes (foldl TimelineItem_mount ct is) = skill_nodes ct
   \<and> skills (registry (foldl TimelineItem_mount ct is)) = skills (registry ct)"
  by (induction "is" arbitrary: ct) (simp_all add: TimelineItem_mount_frame)

lemma toggle_view_frame:
  "skill_nodes (toggle_view ct) = skill_nodes ct
   \<and> skills (registry (toggle_view ct)) = skills (registry ct)"
  by (cases "viewMode ct") (simp_all add: toggle_view_def mount_timeline_def mount_items_frame)

lemma toggles_frame:
  "skill_nodes ((toggle_view ^^ k) ct) = skill_nodes ct
   \<and> skills (registry ((toggle_view ^^ k) ct)) = skills (registry ct)"
  by (induction k) (simp_all add: toggle_view_frame)

lemma boot_content:
  "skill_nodes boot =
     [\<lparr>comp_ref = 0, comp_index = 0\<rparr>, \<lparr>comp_ref = 1, comp_index = 1\<rparr>,
      \<lparr>comp_ref = 2, comp_index = 2\<rparr>, \<lparr>comp_ref = 3, comp_index = 3\<rparr>,
      \<lparr>comp_ref = 4, comp_index = 4\<rparr>, \<lparr>comp_ref = 5, comp_index = 5\<rparr>]"
  "timeline_items boot =
     [\<lparr>comp_ref = 6, comp_index = 0\<rparr>, \<lparr>comp_ref = 7, comp_index = 1\<rparr>,
      \<lparr>comp_ref = 8, comp_index = 2\<rparr>, \<lparr>comp_ref = 9, comp_index = 3\<rparr>]"
  "registry boot = \<lparr>skills = [0, 1, 2, 3, 4, 5], trace = [6, 7, 8, 9]\<rparr>"
  by code_simp+

lemma skill_nodes_positions:
  "map comp_index (skill_nodes ((toggle_view ^^ k) boot)) = [0, 1, 2, 3, 4, 5]
   \<and> map (\<lambda>c. SkillNode_id (comp_index c)) (skill_nodes ((toggle_view ^^ k) boot))
       = map (\<lambda>c. ''skill-'' @ num_str (indexOf (skills (registry ((toggle_view ^^ k) boot)))
                (comp_ref c)))
           (skill_nodes ((toggle_view ^^ k) boot))"
  by (simp add: toggles_frame boot_content SkillNode_id_def)

lemma timeline_items_positions:
  "map comp_index (timeline_items boot) = [0, 1, 2, 3]
   \<and> map (\<lambda>c. TimelineItem_id (comp_index c)) (timeline_items boot)
       = map (\<lambda>c. ''trace-'' @ num_str (indexOf (trace (registry boot)) (comp_ref c)))
           (timeline_items boot)"
  by (simp add: boot_content TimelineItem_id_def)

text \<open>
  C1, as stated, fails twice.  The identifier raised for the skills handle at position
  0 is \<^verbatim>\<open>skill-0\<close>, and a skill node of index 0 tests \<^verbatim>\<open>skill-0\<close>; the form the
  specification gives, with the category's name \<^verbatim>\<open>skills\<close>, is \<^verbatim>\<open>skills-0\<close>.
  And after the view went to the waveform and back, the timeline item of index 0 has
  a new handle, registered behind the four old ones at position 4: the item tests
  \<^verbatim>\<open>trace-0\<close>, and the identifier of its handle's position is \<^verbatim>\<open>trace-4\<close>.
\<close>

theorem hit_identifier_counterexample:
  "t1 \<lparr>skillTarget = Some 7, traceTarget = None\<rparr> \<lparr>skills = [7], trace = []\<rparr> = Some ''skill-0''
   \<and> Some ''skill-0'' \<noteq> Some (spec_hit_id Skills 0)
   \<and> SkillNode_id 0 = ''skill-0''
   \<and> SkillNode_id 0 \<noteq> spec_hit_id Skills 0
   \<and> timeline_items (toggle_view (toggle_view boot)) =
       [\<lparr>comp_ref = 10, comp_index = 0\<rparr>, \<lparr>comp_ref = 11, comp_index = 1\<rparr>,
        \<lparr>comp_ref = 12, comp_index = 2\<rparr>, \<lparr>comp_ref = 13, comp_index = 3\<rparr>]
   \<and> trace (registry (toggle_view (toggle_view boot))) = [6, 7, 8, 9, 10, 11, 12, 13]
   \<and> indexOf (trace (registry (toggle_view (toggle_view boot)))) 10 = 4
   \<and> TimelineItem_id 0 = ''trace-0''
   \<and> spec_hit_id Trace 4 = ''trace-4''"
  by code_simp

text \<open>
  C1, amended.  The first timer raises a notification exactly when the instance holds
  a skills handle that is in the registry, and the identifier is \<^verbatim>\<open>skill-\<close> (singular)
  followed by the decimal position of the handle's first occurrence in the skills
  collection; the second timer does the same with \<^verbatim>\<open>trace-\<close> and the trace
  collection.  For a pick made from a collection without repetition that has only
  grown since, the position is the index of the pick.  A skill node tests \<^verbatim>\<open>skill-\<close>
  and a timeline item \<^verbatim>\<open>trace-\<close>, each followed by the decimal \<open>index\<close> prop of the
  component.  For each of the six skill nodes, however often the view was changed, and
  for each of the four timeline items of the first log view, the \<open>index\<close> prop is the
  position of the component's handle in the registration order of its category.
\<close>

theorem hit_identifier_form:
  "t1 hooks tg =
     (case skillTarget hooks of
        None \<Rightarrow> None
      | Some h \<Rightarrow>
          if h \<in> set (skills tg)
          then Some (''skill-'' @ num_str (int (length (takeWhile (\<lambda>y. y \<noteq> h) (skills tg)))))
          else None)
   \<and> t2 hooks tg =
     (case traceTarget hooks of
        None \<Rightarrow> None
      | Some h \<Rightarrow>
          if h \<in> set (trace tg)
          then Some (''trace-'' @ num_str (int (length (takeWhile (\<lambda>y. y \<noteq> h) (trace tg)))))
          else None)
   \<and> (distinct (skills tg) \<and> is_double r1 \<and> r1 < 1 \<and> skills tg \<noteq> []
        \<and> skills tg' = skills tg @ extra1
        \<longrightarrow> t1 (fst (SignalPacket None r1 r2 sg tg pg)) tg'
              = Some (''skill-'' @ num_str \<lfloor>round_double (r1 * of_nat (length (skills tg)))\<rfloor>))
   \<and> (distinct (trace tg) \<and> is_double r2 \<and> r2 < 1 \<and> trace tg \<noteq> []
        \<and> trace tg' = trace tg @ extra2
        \<longrightarrow> t2 (fst (SignalPacket None r1 r2 sg tg pg)) tg'
              = Some (''trace-'' @ num_str \<lfloor>round_double (r2 * of_nat (length (trace tg)))\<rfloor>))
   \<and> SkillNode_isHit hits n = (''skill-'' @ num_str (int n) \<in> hits)
   \<and> TimelineItem_isHit hits n = (''trace-'' @ num_str (int n) \<in> hits)
   \<and> map comp_index (skill_nodes ((toggle_view ^^ k) boot)) = [0, 1, 2, 3, 4, 5]
   \<and> map (\<lambda>c. SkillNode_id (comp_index c)) (skill_nodes ((toggle_view ^^ k) boot))
       = map (\<lambda>c. ''skill-'' @ num_str (indexOf (skills (registry ((toggle_view ^^ k) boot)))
                (comp_ref c)))
           (skill_nodes ((toggle_view ^^ k) boot))
   \<and> map comp_index (timeline_items boot) = [0, 1, 2, 3]
   \<and> map (\<lambda>c. TimelineItem_id (comp_index c)) (timeline_items boot)
       = map (\<lambda>c. ''trace-'' @ num_str (indexOf (trace (registry boot)) (comp_ref c)))
           (timeline_items boot)"
proof -
  note a = t1_eq [of hooks tg]
  note b = t2_eq [of hooks tg]
  have c: "distinct (skills tg) \<and> is_double r1 \<and> r1 < 1 \<and> skills tg \<noteq> []
        \<and> skills tg' = skills tg @ extra1
        \<longrightarrow> t1 (fst (SignalPacket None r1 r2 sg tg pg)) tg'
              = Some (''skill-'' @ num_str \<lfloor>round_double (r1 * of_nat (length (skills tg)))\<rfloor>)"
    using t1_of_pick [of tg r1 tg' extra1 r2 sg pg] by blast
  have d: "distinct (trace tg) \<and> is_double r2 \<and> r2 < 1 \<and> trace tg \<noteq> []
        \<and> trace tg' = trace tg @ extra2
        \<longrightarrow> t2 (fst (SignalPacket None r1 r2 sg tg pg)) tg'
              = Some (''trace-'' @ num_str \<lfloor>round_double (r2 * of_nat (length (trace tg)))\<rfloor>)"
    using t2_of_pick [of tg r2 tg' extra2 r1 sg pg] by blast
  have e: "SkillNode_isHit hits n = (''skill-'' @ num_str (int n) \<in> hits)"
    "TimelineItem_isHit hits n = (''trace-'' @ num_str (int n) \<in> hits)"
    by (simp_all add: SkillNode_isHit_def TimelineItem_isHit_def SkillNode_id_def
        TimelineItem_id_def)
  note f = skill_nodes_positions [of k]
  note g = timeline_items_positions
  from a b c d e f g show ?thesis by blast
qed

theorem hit_identifier_form_witness:
  "t1 (fst (SignalPacket None (3752999689475413 / 2 ^ 52) (1 / 4)
          \<lparr>sig_id = ''i'', startX = 110, startY = 110, color = ''red''\<rparr>
          \<lparr>skills = [0, 1, 2, 3, 4, 5], trace = [6, 7, 8, 9]\<rparr>
          \<lparr>scrollX = 0, scrollY = 0, current = (\<lambda>_. None)\<rparr>))
      \<lparr>skills = [0, 1, 2, 3, 4, 5], trace = [6, 7, 8, 9, 10, 11, 12, 13]\<rparr> = Some ''skill-5''
   \<and> t2 (fst (SignalPacket None (3752999689475413 / 2 ^ 52) (1 / 4)
          \<lparr>sig_id = ''i'', startX = 110, startY = 110, color = ''red''\<rparr>
          \<lparr>skills = [0, 1, 2, 3, 4, 5], trace = [6, 7, 8, 9]\<rparr>
          \<lparr>scrollX = 0, scrollY = 0, current = (\<lambda>_. None)\<rparr>))
      \<lparr>skills = [0, 1, 2, 3, 4, 5], trace = [6, 7, 8, 9, 10, 11, 12, 13]\<rparr> = Some ''trace-1''
   \<and> map (\<lambda>c. ''skill-'' @ num_str (indexOf (skills (registry ((toggle_view ^^ 2) boot)))
            (comp_ref c)))
        (skill_nodes ((toggle_view ^^ 2) boot))
       = [''skill-0'', ''skill-1'', ''skill-2'', ''skill-3'', ''skill-4'', ''skill-5'']
   \<and> map (\<lambda>c. ''trace-'' @ num_str (indexOf (trace (registry boot)) (comp_ref c)))
        (timeline_items boot)
       = [''trace-0'', ''trace-1'', ''trace-2'', ''trace-3'']"
proof -
  have d: "round_double (3752999689475413 / 2 ^ 52) = 3752999689475413 / 2 ^ 52"
    "round_double (1 / 4) = 1 / 4"
    by code_simp+
  have dd: "is_double (3752999689475413 / 2 ^ 52)" "is_double (1 / 4)"
    unfolding is_double_def d by simp_all
  have fl: "\<lfloor>round_double (3752999689475413 / 2 ^ 52 * 6)\<rfloor> = 5"
    "\<lfloor>round_double (1 / 4 * 4)\<rfloor> = 1"
    by code_simp+
  have n: "map SkillNode_id [0, 1, 2, 3, 4, 5]
      = [''skill-0'', ''skill-1'', ''skill-2'', ''skill-3'', ''skill-4'', ''skill-5'']"
    "map TimelineItem_id [0, 1, 2, 3] = [''trace-0'', ''trace-1'', ''trace-2'', ''trace-3'']"
    "num_str 5 = ''5''" "num_str 1 = ''1''"
    by code_simp+
  note w = hit_identifier_form [where hooks = "\<lparr>skillTarget = None, traceTarget = None\<rparr>"
      and tg = "\<lparr>skills = [0, 1, 2, 3, 4, 5], trace = [6, 7, 8, 9]\<rparr>"
      and tg' = "\<lparr>skills = [0, 1, 2, 3, 4, 5], trace = [6, 7, 8, 9, 10, 11, 12, 13]\<rparr>"
      and ?r1.0 = "3752999689475413 / 2 ^ 52" and ?r2.0 = "1 / 4" and ?extra1.0 = "[]"
      and ?extra2.0 = "[10, 11, 12, 13]"
      and sg = "\<lparr>sig_id = ''i'', startX = 110, startY = 110, color = ''red''\<rparr>"
      and pg = "\<lparr>scrollX = 0, scrollY = 0, current = (\<lambda>_. None)\<rparr>"
      and hits = "{}" and n = 0 and k = 2]
  from w dd have a: "t1 (fst (SignalPacket None (3752999689475413 / 2 ^ 52) (1 / 4)
          \<lparr>sig_id = ''i'', startX = 110, startY = 110, color = ''red''\<rparr>
          \<lparr>skills = [0, 1, 2, 3, 4, 5], trace = [6, 7, 8, 9]\<rparr>
          \<lparr>scrollX = 0, scrollY = 0, current = (\<lambda>_. None)\<rparr>))
      \<lparr>skills = [0, 1, 2, 3, 4, 5], trace = [6, 7, 8, 9, 10, 11, 12, 13]\<rparr> = Some ''skill-5''"
    using fl n by simp
  from w dd have b: "t2 (fst (SignalPacket None (3752999689475413 / 2 ^ 52) (1 / 4)
          \<lparr>sig_id = ''i'', startX = 110, startY = 110, color = ''red''\<rparr>
          \<lparr>skills = [0, 1, 2, 3, 4, 5], trace = [6, 7, 8, 9]\<rparr>
          \<lparr>scrollX = 0, scrollY = 0, current = (\<lambda>_. None)\<rparr>))
      \<lparr>skills = [0, 1, 2, 3, 4, 5], trace = [6, 7, 8, 9, 10, 11, 12, 13]\<rparr> = Some ''trace-1''"
    using fl n by simp
  from w have c: "map (\<lambda>c. SkillNode_id (comp_index c)) (skill_nodes ((toggle_view ^^ 2) boot))
       = map (\<lambda>c. ''skill-'' @ num_str (indexOf (skills (registry ((toggle_view ^^ 2) boot)))
                (comp_ref c)))
           (skill_nodes ((toggle_view ^^ 2) boot))"
    and c': "map comp_index (skill_nodes ((toggle_view ^^ 2) boot)) = [0, 1, 2, 3, 4, 5]"
    and e: "map (\<lambda>c. TimelineItem_id (comp_index c)) (timeline_items boot)
       = map (\<lambda>c. ''trace-'' @ num_str (indexOf (trace (registry boot)) (comp_ref c)))
           (timeline_items boot)"
    and e': "map comp_index (timeline_items boot) = [0, 1, 2, 3]"
    by blast+
  have "map (\<lambda>c. SkillNode_id (comp_index c)) (skill_nodes ((toggle_view ^^ 2) boot))
      = map SkillNode_id (map comp_index (skill_nodes ((toggle_view ^^ 2) boot)))"
    by (simp add: comp_def)
  with c c' n(1) have c'': "map (\<lambda>c. ''skill-'' @ num_str (indexOf (skills (registry ((toggle_view ^^ 2) boot)))
            (comp_ref c)))
        (skill_nodes ((toggle_view ^^ 2) boot))
       = [''skill-0'', ''skill-1'', ''skill-2'', ''skill-3'', ''skill-4'', ''skill-5'']"
    by (simp only:)
  have "map (\<lambda>c. TimelineItem_id (comp_index c)) (timeline_items boot)
      = map TimelineItem_id (map comp_index (timeline_items boot))"
    by (simp add: comp_def)
  with e e' n(2) have e'': "map (\<lambda>c. ''trace-'' @ num_str (indexOf (trace (registry boot)) (comp_ref c)))
        (timeline_items boot)
       = [''trace-0'', ''trace-1'', ''trace-2'', ''trace-3'']"
    by (simp only:)
  from a b c'' e'' show ?thesis by (intro conjI)
qed


section \<open>The terminal and the command palette\<close>

lemma split_ws_not_Nil: "split_ws s \<noteq> []"
  by (induction s rule: split_ws.induct) (auto split: list.split)

lemma trim_blank: "list_all is_ws s \<Longrightarrow> trim s = []"
proof -
  assume "list_all is_ws s"
  then have d: "dropWhile is_ws s = []" by (simp add: list_all_iff)
  show ?thesis unfolding trim_def d by simp
qed

lemma trim_empty_iff: "trim s = [] \<longleftrightarrow> list_all is_ws s"
proof (cases "dropWhile is_ws s")
  case Nil
  then have "list_all is_ws s" by (simp add: list_all_iff)
  then show ?thesis by (simp add: trim_blank)
next
  case (Cons c cs)
  then have "\<not> is_ws c" using hd_dropWhile [of is_ws s] by simp
  with Cons have "dropWhile is_ws (rev (dropWhile is_ws s)) \<noteq> []" by auto
  moreover from Cons have "\<not> list_all is_ws s"
    using dropWhile_eq_Nil_conv [of is_ws s] by (simp add: list_all_iff)
  ultimately show ?thesis by (simp add: trim_def)
qed

text \<open>
  C10.  A terminal submission whose input is empty or all white space returns at once:
  the terminal (history and input field) is as before, and nothing is called.
\<close>

theorem blank_input_ignored:
  "list_all is_ws (input tm) \<Longrightarrow> handleCommand cb tm = (tm, [])"
  by (simp add: handleCommand_def trim_blank)

theorem blank_input_ignored_witness:
  "list_all is_ws [CHR '' '', CHR 0x09, CHR '' '']
   \<and> handleCommand True \<lparr>history = [(Output, Text ''ok'')], input = [CHR '' '', CHR 0x09, CHR '' '']\<rparr>
       = (\<lparr>history = [(Output, Text ''ok'')], input = [CHR '' '', CHR 0x09, CHR '' '']\<rparr>, [])
   \<and> handleCommand True \<lparr>history = [(Output, Text ''ok'')], input = []\<rparr>
       = (\<lparr>history = [(Output, Text ''ok'')], input = []\<rparr>, [])"
proof -
  have h: "list_all is_ws (input \<lparr>history = [(Output, Text ''ok'')], input = [CHR '' '', CHR 0x09, CHR '' '']\<rparr>)"
    by (simp add: is_ws_def)
  have h0: "list_all is_ws (input \<lparr>history = [(Output, Text ''ok'')], input = []\<rparr>)"
    by simp
  show ?thesis
    using blank_input_ignored [OF h, of True] blank_input_ignored [OF h0, of True] h
    by simp
qed

lemma tokens_not_Nil: "tokens s \<noteq> []"
  by (simp add: tokens_def split_ws_not_Nil)

lemma js_at_map: "js_at (map f xs) i = map_option f (js_at xs i)"
  by (simp add: js_at_def nat_less_iff)

lemma hd_tokens: "hd (tokens s) = toLowerCase (hd (split_ws (trim s)))"
  by (simp add: tokens_def hd_map split_ws_not_Nil)

lemma handleCommand_tokens:
  "trim (input tm) \<noteq> [] \<Longrightarrow>
   handleCommand cb tm =
     (let cmd = hd (tokens (input tm)); arg1 = js_at (tokens (input tm)) 1
      in if cmd = ''clear'' then (\<lparr>history = [], input = []\<rparr>, [])
         else if cmd = ''theme'' then
           (if arg1 = Some ''silicon'' then
              (answer tm (Text ''SWITCHING TO RTL VIEW... GATE LEVEL PRIMITIVES EXPOSED.''),
               theme_call cb Silicon)
            else if arg1 = Some ''dark'' then
              (answer tm (Text ''REVERTING TO ABSTRACTION LAYER 0.''), theme_call cb Default)
            else if arg1 = Some ''light'' then
              (answer tm (Text ''ACTIVATING CLEAN ROOM PROTOCOLS... ILLUMINATION: 100%''),
               theme_call cb Light)
            else (answer tm (Text ''Usage: theme [silicon | light | dark]''), []))
         else if cmd = ''resume'' then
           (answer tm (Text ''Initiating download sequence for Mishat_Hassan_Resume.txt...''),
            [Download ''Mishat_Hassan_Resume.txt''])
         else
           (answer tm
              (case js_get COMMANDS cmd of
                 Own txt \<Rightarrow> Text txt
               | Proto k \<Rightarrow> Inherited k
               | Undefined \<Rightarrow> Text (''bash: '' @ cmd @ '': command not found'')),
            []))"
  by (simp add: handleCommand_def Let_def tokens_def hd_map split_ws_not_Nil js_at_map)

lemma handleSubmit_tokens:
  "trim (p_input pal) \<noteq> [] \<Longrightarrow>
   handleSubmit pal =
     (let cmd = hd (tokens (p_input pal)); args = tl (split_ws (trim (p_input pal)))
      in case js_get PALETTE_COMMANDS cmd of
           Own handler \<Rightarrow>
             (let (effs, msg) = handler args
              in Inr (\<lparr>p_input = [],
                       p_output = (case msg of None \<Rightarrow> p_output pal | Some m \<Rightarrow> Some m)\<rparr>,
                      effs))
         | Proto k \<Rightarrow>
             (if k = ''constructor'' then Inr (pal\<lparr>p_input := []\<rparr>, []) else Inl TypeError)
         | Undefined \<Rightarrow>
             Inr (\<lparr>p_input = [], p_output = Some (''E492: Not a command: '' @ cmd)\<rparr>, []))"
  by (simp add: handleSubmit_def Let_def tokens_def hd_map split_ws_not_Nil)

lemma palette_handler_cases:
  "js_get PALETTE_COMMANDS cmd = Own handler \<Longrightarrow>
   handler = theme_handler \<or> (\<exists>v. handler = (\<lambda>_. v))"
  unfolding js_get_def PALETTE_COMMANDS_def
  by (auto split: option.splits if_splits)

lemma theme_handler_lower:
  "map toLowerCase args = map toLowerCase args' \<Longrightarrow> theme_handler args = theme_handler args'"
proof -
  assume a: "map toLowerCase args = map toLowerCase args'"
  have "map_option toLowerCase (js_at args 0) = map_option toLowerCase (js_at args' 0)"
    unfolding js_at_map [symmetric] a ..
  then show ?thesis by (simp add: theme_handler_def)
qed

lemma palette_handler_lower:
  assumes "js_get PALETTE_COMMANDS cmd = Own handler"
    and "map toLowerCase args = map toLowerCase args'"
  shows "handler args = handler args'"
  using palette_handler_cases [OF assms(1)] theme_handler_lower [OF assms(2)] by auto

lemma tl_tokens: "tl (tokens s) = map toLowerCase (tl (split_ws (trim s)))"
  by (simp add: tokens_def map_tl)

lemma handleSubmit_case_insensitive:
  assumes "trim s \<noteq> []" and "trim s' \<noteq> []" and "tokens s = tokens s'"
  shows "handleSubmit \<lparr>p_input = s, p_output = out\<rparr> = handleSubmit \<lparr>p_input = s', p_output = out\<rparr>"
proof -
  have args: "map toLowerCase (tl (split_ws (trim s))) = map toLowerCase (tl (split_ws (trim s')))"
    using assms(3) tl_tokens [of s] tl_tokens [of s'] by simp
  show ?thesis
  proof (cases "js_get PALETTE_COMMANDS (hd (tokens s'))")
    case (Own handler)
    have "handler (tl (split_ws (trim s))) = handler (tl (split_ws (trim s')))"
      using palette_handler_lower [OF Own args] .
    with Own assms show ?thesis
      by (simp add: handleSubmit_tokens Let_def split: prod.split option.split)
  next
    case (Proto k)
    with assms show ?thesis by (simp add: handleSubmit_tokens Let_def)
  next
    case Undefined
    with assms show ?thesis by (simp add: handleSubmit_tokens Let_def)
  qed
qed

lemma handleCommand_case_insensitive:
  assumes "trim s \<noteq> []" and "trim s' \<noteq> []" and "tokens s = tokens s'"
  shows "snd (handleCommand cb (tm\<lparr>input := s\<rparr>)) = snd (handleCommand cb (tm\<lparr>input := s'\<rparr>))
       \<and> output_lines (fst (handleCommand cb (tm\<lparr>input := s\<rparr>)))
           = output_lines (fst (handleCommand cb (tm\<lparr>input := s'\<rparr>)))"
  using assms by (simp add: handleCommand_tokens Let_def answer_def output_lines_def)

lemma terminal_theme:
  assumes "trim (input tm) \<noteq> []" and "hd (tokens (input tm)) = ''theme''"
  shows "handleCommand cb tm =
     (if js_at (tokens (input tm)) 1 = Some ''silicon'' then
        (answer tm (Text ''SWITCHING TO RTL VIEW... GATE LEVEL PRIMITIVES EXPOSED.''),
         theme_call cb Silicon)
      else if js_at (tokens (input tm)) 1 = Some ''dark'' then
        (answer tm (Text ''REVERTING TO ABSTRACTION LAYER 0.''), theme_call cb Default)
      else if js_at (tokens (input tm)) 1 = Some ''light'' then
        (answer tm (Text ''ACTIVATING CLEAN ROOM PROTOCOLS... ILLUMINATION: 100%''),
         theme_call cb Light)
      else (answer tm (Text ''Usage: theme [silicon | light | dark]''), []))"
  using assms by (simp add: handleCommand_tokens Let_def)

lemma js_at_tl: "js_at (tl xs) 0 = js_at xs 1"
  by (cases xs) (auto simp: js_at_def)

lemma palette_theme:
  assumes "trim (p_input pal) \<noteq> []" and "hd (tokens (p_input pal)) = ''theme''"
  shows "handleSubmit pal =
     (if js_at (tokens (p_input pal)) 1 = Some ''silicon'' then
        Inr (\<lparr>p_input = [], p_output = Some ''SWITCHING TO RTL VIEW...''\<rparr>, [OnThemeChange Silicon])
      else if js_at (tokens (p_input pal)) 1 = Some ''light'' then
        Inr (\<lparr>p_input = [], p_output = Some ''CLEAN ROOM MODE ACTIVATED''\<rparr>, [OnThemeChange Light])
      else if js_at (tokens (p_input pal)) 1 = Some ''dark''
              \<or> js_at (tokens (p_input pal)) 1 = Some ''default'' then
        Inr (\<lparr>p_input = [], p_output = Some ''ABSTRACTION LAYER 0''\<rparr>, [OnThemeChange Default])
      else Inr (\<lparr>p_input = [], p_output = Some ''Usage: theme [dark|light|silicon]''\<rparr>, []))"
proof -
  have g: "js_get PALETTE_COMMANDS ''theme'' = Own theme_handler"
    by (simp add: js_get_def PALETTE_COMMANDS_def)
  have a: "map_option toLowerCase (js_at (tl (split_ws (trim (p_input pal)))) 0)
             = js_at (tokens (p_input pal)) 1"
    by (simp add: js_at_tl js_at_map tokens_def)
  show ?thesis
    using assms g a by (simp add: handleSubmit_tokens Let_def theme_handler_def)
qed

lemma split_ws_word:
  "list_all (\<lambda>c. \<not> is_ws c) w \<Longrightarrow> split_ws w = [w]"
  by (induction w) simp_all

lemma split_ws_at_space:
  "list_all (\<lambda>c. \<not> is_ws c) w \<Longrightarrow> is_ws c \<Longrightarrow>
   split_ws (w @ c # cs) = w # split_ws (dropWhile is_ws cs)"
  by (induction w) simp_all

lemma theme_silicon_run:
  "handleCommand True (tm\<lparr>input := ''theme silicon''\<rparr>) =
     (\<lparr>history = history tm @ [(Input, Text ''theme silicon''),
         (Output, Text ''SWITCHING TO RTL VIEW... GATE LEVEL PRIMITIVES EXPOSED.'')],
       input = []\<rparr>, [OnThemeChange Silicon])"
proof -
  have t: "trim ''theme silicon'' = ''theme silicon''"
    "tokens ''theme silicon'' = [''theme'', ''silicon'']" by code_simp+
  have ne: "trim (input (tm\<lparr>input := ''theme silicon''\<rparr>)) \<noteq> []" by (simp add: t)
  show ?thesis unfolding handleCommand_tokens [OF ne]
    by (simp add: t js_at_def answer_def theme_call_def)
qed

lemma bogus_terminal:
  "handleCommand cb (tm\<lparr>input := ''bogus''\<rparr>) =
     (\<lparr>history = history tm @ [(Input, Text ''bogus''),
         (Output, Text ''bash: bogus: command not found'')],
       input = []\<rparr>, [])"
proof -
  have t: "trim ''bogus'' = ''bogus''" "tokens ''bogus'' = [''bogus'']"
    "js_get COMMANDS ''bogus'' = Undefined" by code_simp+
  have ne: "trim (input (tm\<lparr>input := ''bogus''\<rparr>)) \<noteq> []" by (simp add: t)
  show ?thesis unfolding handleCommand_tokens [OF ne]
    by (simp add: t answer_def)
qed

lemma bogus_palette:
  "handleSubmit \<lparr>p_input = ''bogus'', p_output = out\<rparr> =
     Inr (\<lparr>p_input = [], p_output = Some ''E492: Not a command: bogus''\<rparr>, [])"
proof -
  have t: "trim ''bogus'' = ''bogus''" "tokens ''bogus'' = [''bogus'']" by code_simp+
  have g: "js_get PALETTE_COMMANDS ''bogus'' = Undefined"
    by (simp add: js_get_def PALETTE_COMMANDS_def object_prototype_keys_def)
  have ne: "trim (p_input \<lparr>p_input = ''bogus'', p_output = out\<rparr>) \<noteq> []" by (simp add: t)
  show ?thesis unfolding handleSubmit_tokens [OF ne]
    by (simp add: t g)
qed

text \<open>
  C8, as stated, fails for the terminal: its \<open>theme\<close> command knows \<open>silicon\<close>,
  \<open>dark\<close> and \<open>light\<close> only, and \<^verbatim>\<open>theme default\<close> gets the usage message and
  changes no theme.
\<close>

theorem theme_default_counterexample:
  "handleCommand True \<lparr>history = [], input = ''theme default''\<rparr> =
     (\<lparr>history = [(Input, Text ''theme default''),
                  (Output, Text ''Usage: theme [silicon | light | dark]'')],
       input = []\<rparr>, [])"
  by code_simp

text \<open>
  C8, amended.  A piece without white space is one token, and white space after it ends
  it.  Two inputs with the same lower-cased tokens get the same answer and the same
  calls from the terminal, and the same result from the palette.  The terminal input
  \<^verbatim>\<open>theme silicon\<close> changes the theme to \<open>silicon\<close> and appends the line
  \<^verbatim>\<open>SWITCHING TO RTL VIEW... GATE LEVEL PRIMITIVES EXPOSED.\<close>  After the command
  \<open>theme\<close> the terminal accepts the first arguments \<open>silicon\<close>, \<open>dark\<close> and \<open>light\<close>,
  the palette \<open>silicon\<close>, \<open>light\<close>, \<open>dark\<close> and \<open>default\<close>; any other first
  argument, or none, gets the usage message and no theme change.  The input
  \<^verbatim>\<open>bogus\<close> gets \<^verbatim>\<open>bash: bogus: command not found\<close> from the terminal and
  \<^verbatim>\<open>E492: Not a command: bogus\<close> from the palette, and nothing is called.
\<close>

theorem interpreters:
  "(list_all (\<lambda>c. \<not> is_ws c) w \<and> is_ws c
      \<longrightarrow> split_ws w = [w] \<and> split_ws (w @ c # cs) = w # split_ws (dropWhile is_ws cs))
   \<and> (trim s \<noteq> [] \<and> trim s' \<noteq> [] \<and> tokens s = tokens s'
      \<longrightarrow> snd (handleCommand cb (tm\<lparr>input := s\<rparr>)) = snd (handleCommand cb (tm\<lparr>input := s'\<rparr>))
        \<and> output_lines (fst (handleCommand cb (tm\<lparr>input := s\<rparr>)))
            = output_lines (fst (handleCommand cb (tm\<lparr>input := s'\<rparr>)))
        \<and> handleSubmit \<lparr>p_input = s, p_output = out\<rparr>
            = handleSubmit \<lparr>p_input = s', p_output = out\<rparr>)
   \<and> handleCommand True (tm\<lparr>input := ''theme silicon''\<rparr>) =
       (\<lparr>history = history tm @ [(Input, Text ''theme silicon''),
           (Output, Text ''SWITCHING TO RTL VIEW... GATE LEVEL PRIMITIVES EXPOSED.'')],
         input = []\<rparr>, [OnThemeChange Silicon])
   \<and> (trim s \<noteq> [] \<and> hd (tokens s) = ''theme''
      \<longrightarrow> handleCommand cb (tm\<lparr>input := s\<rparr>) =
           (if js_at (tokens s) 1 = Some ''silicon'' then
              (answer (tm\<lparr>input := s\<rparr>)
                 (Text ''SWITCHING TO RTL VIEW... GATE LEVEL PRIMITIVES EXPOSED.''),
               theme_call cb Silicon)
            else if js_at (tokens s) 1 = Some ''dark'' then
              (answer (tm\<lparr>input := s\<rparr>) (Text ''REVERTING TO ABSTRACTION LAYER 0.''),
               theme_call cb Default)
            else if js_at (tokens s) 1 = Some ''light'' then
              (answer (tm\<lparr>input := s\<rparr>)
                 (Text ''ACTIVATING CLEAN ROOM PROTOCOLS... ILLUMINATION: 100%''),
               theme_call cb Light)
            else (answer (tm\<lparr>input := s\<rparr>) (Text ''Usage: theme [silicon | light | dark]''), []))
        \<and> handleSubmit \<lparr>p_input = s, p_output = out\<rparr> =
           (if js_at (tokens s) 1 = Some ''silicon'' then
              Inr (\<lparr>p_input = [], p_output = Some ''SWITCHING TO RTL VIEW...''\<rparr>,
                   [OnThemeChange Silicon])
            else if js_at (tokens s) 1 = Some ''light'' then
              Inr (\<lparr>p_input = [], p_output = Some ''CLEAN ROOM MODE ACTIVATED''\<rparr>,
                   [OnThemeChange Light])
            else if js_at (tokens s) 1 = Some ''dark'' \<or> js_at (tokens s) 1 = Some ''default'' then
              Inr (\<lparr>p_input = [], p_output = Some ''ABSTRACTION LAYER 0''\<rparr>,
                   [OnThemeChange Default])
            else Inr (\<lparr>p_input = [], p_output = Some ''Usage: theme [dark|light|silicon]''\<rparr>, [])))
   \<and> handleCommand cb (tm\<lparr>input := ''bogus''\<rparr>) =
       (\<lparr>history = history tm @ [(Input, Text ''bogus''),
           (Output, Text ''bash: bogus: command not found'')],
         input = []\<rparr>, [])
   \<and> handleSubmit \<lparr>p_input = ''bogus'', p_output = out\<rparr> =
       Inr (\<lparr>p_input = [], p_output = Some ''E492: Not a command: bogus''\<rparr>, [])"
proof -
  have a: "list_all (\<lambda>c. \<not> is_ws c) w \<and> is_ws c
      \<longrightarrow> split_ws w = [w] \<and> split_ws (w @ c # cs) = w # split_ws (dropWhile is_ws cs)"
    by (simp add: split_ws_word split_ws_at_space)
  have b: "trim s \<noteq> [] \<and> trim s' \<noteq> [] \<and> tokens s = tokens s'
      \<longrightarrow> snd (handleCommand cb (tm\<lparr>input := s\<rparr>)) = snd (handleCommand cb (tm\<lparr>input := s'\<rparr>))
        \<and> output_lines (fst (handleCommand cb (tm\<lparr>input := s\<rparr>)))
            = output_lines (fst (handleCommand cb (tm\<lparr>input := s'\<rparr>)))
        \<and> handleSubmit \<lparr>p_input = s, p_output = out\<rparr>
            = handleSubmit \<lparr>p_input = s', p_output = out\<rparr>"
    using handleCommand_case_insensitive [of s s' cb tm]
      handleSubmit_case_insensitive [of s s' out] by blast
  note c = theme_silicon_run [of tm]
  have d: "trim s \<noteq> [] \<and> hd (tokens s) = ''theme''
      \<longrightarrow> handleCommand cb (tm\<lparr>input := s\<rparr>) =
           (if js_at (tokens s) 1 = Some ''silicon'' then
              (answer (tm\<lparr>input := s\<rparr>)
                 (Text ''SWITCHING TO RTL VIEW... GATE LEVEL PRIMITIVES EXPOSED.''),
               theme_call cb Silicon)
            else if js_at (tokens s) 1 = Some ''dark'' then
              (answer (tm\<lparr>input := s\<rparr>) (Text ''REVERTING TO ABSTRACTION LAYER 0.''),
               theme_call cb Default)
            else if js_at (tokens s) 1 = Some ''light'' then
              (answer (tm\<lparr>input := s\<rparr>)
                 (Text ''ACTIVATING CLEAN ROOM PROTOCOLS... ILLUMINATION: 100%''),
               theme_call cb Light)
            else (answer (tm\<lparr>input := s\<rparr>) (Text ''Usage: theme [silicon | light | dark]''), []))
        \<and> handleSubmit \<lparr>p_input = s, p_output = out\<rparr> =
           (if js_at (tokens s) 1 = Some ''silicon'' then
              Inr (\<lparr>p_input = [], p_output = Some ''SWITCHING TO RTL VIEW...''\<rparr>,
                   [OnThemeChange Silicon])
            else if js_at (tokens s) 1 = Some ''light'' then
              Inr (\<lparr>p_input = [], p_output = Some ''CLEAN ROOM MODE ACTIVATED''\<rparr>,
                   [OnThemeChange Light])
            else if js_at (tokens s) 1 = Some ''dark'' \<or> js_at (tokens s) 1 = Some ''default'' then
              Inr (\<lparr>p_input = [], p_output = Some ''ABSTRACTION LAYER 0''\<rparr>,
                   [OnThemeChange Default])
            else Inr (\<lparr>p_input = [], p_output = Some ''Usage: theme [dark|light|silicon]''\<rparr>, []))"
    using terminal_theme [of "tm\<lparr>input := s\<rparr>" cb]
      palette_theme [of "\<lparr>p_input = s, p_output = out\<rparr>"] by simp
  note e = bogus_terminal [of cb tm]
  note f = bogus_palette [of out]
  from a b c d e f show ?thesis by blast
qed

theorem interpreters_witness:
  "split_ws ''theme silicon'' = [''theme'', ''silicon'']
   \<and> snd (handleCommand True (Terminal_initial\<lparr>input := ''  Theme   SILICON ''\<rparr>))
       = [OnThemeChange Silicon]
   \<and> output_lines (fst (handleCommand True (Terminal_initial\<lparr>input := ''  Theme   SILICON ''\<rparr>)))
       = output_lines Terminal_initial
           @ [Text ''SWITCHING TO RTL VIEW... GATE LEVEL PRIMITIVES EXPOSED.'']
   \<and> handleSubmit \<lparr>p_input = ''  Theme   SILICON '', p_output = None\<rparr>
       = Inr (\<lparr>p_input = [], p_output = Some ''SWITCHING TO RTL VIEW...''\<rparr>, [OnThemeChange Silicon])"
proof -
  have h1: "list_all (\<lambda>c. \<not> is_ws c) ''theme'' \<and> is_ws (CHR '' '')"
    by code_simp
  have h2: "trim ''  Theme   SILICON '' \<noteq> [] \<and> trim ''theme silicon'' \<noteq> []
      \<and> tokens ''  Theme   SILICON '' = tokens ''theme silicon''"
    by code_simp
  have h3: "trim ''theme silicon'' \<noteq> [] \<and> hd (tokens ''theme silicon'') = ''theme''"
    by code_simp
  have t: "tokens ''theme silicon'' = [''theme'', ''silicon'']"
    "split_ws (dropWhile is_ws ''silicon'') = [''silicon'']"
    by code_simp+
  note w = interpreters [of "''theme''" "CHR '' ''" "''silicon''" "''  Theme   SILICON ''"
      "''theme silicon''" True Terminal_initial None]
  from w h1 have a: "split_ws ''theme silicon'' = [''theme'', ''silicon'']"
    using t(2) by simp
  from w h2 have b:
    "snd (handleCommand True (Terminal_initial\<lparr>input := ''  Theme   SILICON ''\<rparr>))
       = snd (handleCommand True (Terminal_initial\<lparr>input := ''theme silicon''\<rparr>))"
    "output_lines (fst (handleCommand True (Terminal_initial\<lparr>input := ''  Theme   SILICON ''\<rparr>)))
       = output_lines (fst (handleCommand True (Terminal_initial\<lparr>input := ''theme silicon''\<rparr>)))"
    "handleSubmit \<lparr>p_input = ''  Theme   SILICON '', p_output = None\<rparr>
       = handleSubmit \<lparr>p_input = ''theme silicon'', p_output = None\<rparr>"
    by blast+
  from w have c: "handleCommand True (Terminal_initial\<lparr>input := ''theme silicon''\<rparr>) =
       (\<lparr>history = history Terminal_initial @ [(Input, Text ''theme silicon''),
           (Output, Text ''SWITCHING TO RTL VIEW... GATE LEVEL PRIMITIVES EXPOSED.'')],
         input = []\<rparr>, [OnThemeChange Silicon])"
    by blast
  note w' = interpreters [of "''theme''" "CHR '' ''" "''silicon''" "''theme silicon''"
      "''theme silicon''" True Terminal_initial None]
  from w' h3 have d: "handleSubmit \<lparr>p_input = ''theme silicon'', p_output = None\<rparr>
       = Inr (\<lparr>p_input = [], p_output = Some ''SWITCHING TO RTL VIEW...''\<rparr>, [OnThemeChange Silicon])"
    using t(1) by (simp add: js_at_def)
  show ?thesis using a b c d by (simp add: output_lines_def)
qed

end
